theory Spec2Isabelle
  imports Complex_Main "HOL-Library.Sublist" "HOL-Library.Monad_Syntax"
begin

section \<open>Strings and numbers as the extension builds them\<close>

text \<open>
  The extension (\<^verbatim>\<open>src/extension.ts\<close>) assembles shell command lines and markup with
  template literals. A template literal is the concatenation of its fixed pieces and the
  string values of its substitutions, so every template below is an \<open>@\<close>-chain.
  Strings are \<open>char list\<close>s: one \<open>char\<close> stands for one code unit of the source
  string (code units above \<open>0xFF\<close> are not represented).
\<close>

definition dquote :: char where
  "dquote = CHR 0x22"

text \<open>\<open>quoted s\<close> is the piece \<^verbatim>\<open>"${s}"\<close> of a template: \<open>s\<close> between two double quotes.\<close>

definition quoted :: "string \<Rightarrow> string" where
  "quoted s = dquote # s @ [dquote]"

text \<open>
  Mip level, layer, face and depth selectors and button indices are integers (the
  preview script reads them with \<^verbatim>\<open>parseInt\<close>). For an integer of magnitude up to
  \<open>2^53\<close>, as every index is, the string value of a JavaScript number is its decimal
  numeral, with a leading minus sign when negative.
\<close>

fun nat_to_string :: "nat \<Rightarrow> string" where
  "nat_to_string n =
     (if n < 10 then [''0123456789'' ! n]
      else nat_to_string (n div 10) @ [''0123456789'' ! (n mod 10)])"

declare nat_to_string.simps [simp del]

definition int_to_string :: "int \<Rightarrow> string" where
  "int_to_string i =
     (if i < 0 then CHR ''-'' # nat_to_string (nat (- i)) else nat_to_string (nat i))"

definition digit_chars :: "char set" where
  "digit_chars = set ''0123456789''"

definition number_chars :: "char set" where
  "number_chars = insert (CHR ''-'') digit_chars"

section \<open>External commands\<close>

text \<open>
  \<^verbatim>\<open>cp.exec(cmd, callback)\<close> runs a command line and calls back with an error or with
  the captured standard output. The outcome is decided by the world outside the
  extension, so it is a parameter: a \<open>shell\<close> maps the commands run so far (oldest first)
  and the command to run to \<open>Inl\<close> an error or \<open>Inr\<close> the standard output. Every function
  that runs commands takes the history and returns it extended, so that the commands a
  function issued, and their order, can be read off its result.
\<close>

datatype error = ExecError string | SyntaxError

type_synonym shell = "string list \<Rightarrow> string \<Rightarrow> error + string"

text \<open>
  Three outside worlds to run examples in: every command succeeds and prints nothing;
  only the first command run fails; every command fails.
\<close>

definition all_succeed :: shell where
  "all_succeed hist cmd = Inr []"

definition first_fails :: shell where
  "first_fails hist cmd = (if hist = [] then Inl (ExecError ''invalid'') else Inr [])"

definition all_fail :: shell where
  "all_fail hist cmd = Inl (ExecError ''invalid'')"

section \<open>KTX2 extraction: \<^verbatim>\<open>updateKtx2Preview\<close>\<close>

record selection =
  level :: int
  layer :: int
  face :: int
  depth :: int

text \<open>
  The header object comes out of \<^verbatim>\<open>JSON.parse\<close>: each count may be absent
  (\<open>None\<close>). \<^verbatim>\<open>(header.faceCount || 0)\<close> is \<open>0\<close> for an absent count and the count
  itself otherwise (a count of \<open>0\<close> is falsy and is replaced by \<open>0\<close>).
\<close>

record ktx2_header =
  levelCount :: "int option"
  layerCount :: "int option"
  faceCount :: "int option"
  pixelDepth :: "int option"

definition emptyHeader :: ktx2_header where
  "emptyHeader = \<lparr>levelCount = None, layerCount = None, faceCount = None, pixelDepth = None\<rparr>"

definition or0 :: "int option \<Rightarrow> int" where
  "or0 v = (case v of None \<Rightarrow> 0 | Some n \<Rightarrow> if n = 0 then 0 else n)"

text \<open>
  \<^verbatim>\<open>const extractPath = previewPath.endsWith('.exr') ? previewPath : `${previewPath}.exr`\<close>
\<close>

definition extractPath :: "string \<Rightarrow> string" where
  "extractPath previewPath =
     (if suffix ''.exr'' previewPath then previewPath else previewPath @ ''.exr'')"

text \<open>
  The value of the variable \<^verbatim>\<open>cmd\<close> after the selector options have been appended
  (lines 504 to 520), before the two quoted paths are.
\<close>

definition extractOptions :: "selection \<Rightarrow> ktx2_header \<Rightarrow> string" where
  "extractOptions sel header =
     (let cmd = ''ktx extract --level '' @ int_to_string (level sel);
          isCubemap = (or0 (faceCount header) > 1);
          cmd = (if isCubemap then cmd @ '' --face '' @ int_to_string (face sel)
                 else if or0 (pixelDepth header) > 1
                      then cmd @ '' --depth '' @ int_to_string (depth sel)
                      else cmd);
          cmd = (if or0 (layerCount header) > 1
                 then cmd @ '' --layer '' @ int_to_string (layer sel)
                 else cmd)
      in cmd)"

text \<open>The finished command: \<^verbatim>\<open>cmd += ` "${ktx2Path}" "${extractPath}"`\<close> (line 522).\<close>

definition extractCmd :: "string \<Rightarrow> string \<Rightarrow> selection \<Rightarrow> ktx2_header \<Rightarrow> string" where
  "extractCmd ktx2Path previewPath sel header =
     extractOptions sel header @ '' '' @ quoted ktx2Path @ '' ''
       @ quoted (extractPath previewPath)"

text \<open>The command of the second attempt (line 536).\<close>

definition fallbackCmd :: "string \<Rightarrow> string \<Rightarrow> selection \<Rightarrow> string" where
  "fallbackCmd ktx2Path previewPath sel =
     ''ktx extract --level '' @ int_to_string (level sel)
       @ '' --face '' @ int_to_string (face sel)
       @ '' '' @ quoted ktx2Path @ '' '' @ quoted (extractPath previewPath)"

text \<open>
  \<open>updateKtx2Preview\<close> runs the command; when it fails and the texture is a cubemap it
  runs the fallback command and settles on its outcome; otherwise the first error is
  rethrown. \<open>info\<close> is \<open>None\<close> when the caller has no header
  (\<^verbatim>\<open>info?.header || {}\<close>). The result is the extended history and either the error thrown
  or the path returned.

  This is the method as \<^verbatim>\<open>src/extension.ts\<close> has it. An earlier revision kept with the
  sources appended \<^verbatim>\<open>--depth\<close> whenever \<open>pixelDepth > 1\<close>, cubemap or not, and had no
  second attempt; the comment at lines 510 and 511 records why that was changed.
\<close>

definition updateKtx2Preview ::
  "shell \<Rightarrow> string list \<Rightarrow> string \<Rightarrow> string \<Rightarrow> selection \<Rightarrow> ktx2_header option
     \<Rightarrow> string list \<times> (error + string)" where
  "updateKtx2Preview exec hist ktx2Path previewPath sel info =
     (let header = (case info of None \<Rightarrow> emptyHeader | Some h \<Rightarrow> h);
          cmd = extractCmd ktx2Path previewPath sel header;
          isCubemap = (or0 (faceCount header) > 1)
      in case exec hist cmd of
           Inr out \<Rightarrow> (hist @ [cmd], Inr (extractPath previewPath))
         | Inl err \<Rightarrow>
             if isCubemap then
               (let fb = fallbackCmd ktx2Path previewPath sel
                in case exec (hist @ [cmd]) fb of
                     Inl fallbackError \<Rightarrow> (hist @ [cmd, fb], Inl fallbackError)
                   | Inr out \<Rightarrow> (hist @ [cmd, fb], Inr (extractPath previewPath)))
             else (hist @ [cmd], Inl err))"

section \<open>Facts about substrings\<close>

lemma sublist_split_at:
  assumes "c \<notin> set p"
  shows "sublist p (a @ c # b) \<longleftrightarrow> sublist p a \<or> sublist p b"
proof
  assume "sublist p (a @ c # b)"
  then consider "sublist p a" | "sublist p (c # b)"
    | p1 p2 where "p = p1 @ p2" "suffix p1 a" "prefix p2 (c # b)"
    by (auto simp: sublist_append)
  then show "sublist p a \<or> sublist p b"
  proof cases
    case 1
    then show ?thesis by simp
  next
    case 2
    then have "prefix p (c # b) \<or> sublist p b"
      by (simp add: sublist_Cons_right)
    moreover have "prefix p (c # b) \<Longrightarrow> p = []"
      using assms by (cases p) auto
    ultimately show ?thesis by auto
  next
    case 3
    have "p2 = []"
      using 3(1,3) assms by (cases p2) auto
    with 3 show ?thesis by (auto simp: suffix_imp_sublist)
  qed
next
  assume "sublist p a \<or> sublist p b"
  then show "sublist p (a @ c # b)"
    by (auto simp: sublist_append sublist_Cons_right)
qed

lemma digit_in_digit_chars: "k < 10 \<Longrightarrow> ''0123456789'' ! k \<in> digit_chars"
  unfolding digit_chars_def by (rule nth_mem) simp

lemma set_nat_to_string: "set (nat_to_string n) \<subseteq> digit_chars"
proof (induction n rule: nat_to_string.induct)
  case (1 n)
  show ?case
  proof (cases "n < 10")
    case True
    then show ?thesis
      using digit_in_digit_chars [of n] by (subst nat_to_string.simps) simp
  next
    case False
    have "n mod 10 < 10" by simp
    then have "''0123456789'' ! (n mod 10) \<in> digit_chars"
      by (rule digit_in_digit_chars)
    then show ?thesis
      using False 1 by (subst nat_to_string.simps) simp
  qed
qed

lemma set_int_to_string: "set (int_to_string i) \<subseteq> number_chars"
proof (cases "i < 0")
  case True
  then show ?thesis
    using set_nat_to_string [of "nat (- i)"]
    by (simp add: int_to_string_def number_chars_def subset_insertI2)
next
  case False
  then show ?thesis
    using set_nat_to_string [of "nat i"]
    by (simp add: int_to_string_def number_chars_def subset_insertI2)
qed

lemma not_sublist_number:
  assumes "c \<in> set p" and "c \<notin> number_chars"
  shows "\<not> sublist p (int_to_string i)"
proof
  assume "sublist p (int_to_string i)"
  then have "set p \<subseteq> set (int_to_string i)"
    by (rule set_mono_sublist)
  with assms(1) set_int_to_string [of i] have "c \<in> number_chars"
    by blast
  with assms(2) show False by simp
qed

lemma letter_d_not_number: "CHR ''d'' \<notin> number_chars"
  by (simp add: number_chars_def digit_chars_def)

lemma letter_l_not_number: "CHR ''l'' \<notin> number_chars"
  by (simp add: number_chars_def digit_chars_def)

lemma depth_not_in_number [simp]: "\<not> sublist ''--depth'' (int_to_string i)"
  by (rule not_sublist_number [of "CHR ''d''"]) (simp_all add: letter_d_not_number)

lemma layer_not_in_number [simp]: "\<not> sublist ''--layer'' (int_to_string i)"
  by (rule not_sublist_number [of "CHR ''l''"]) (simp_all add: letter_l_not_number)

lemma extractPath_suffix: "suffix ''.exr'' (extractPath p)"
  by (simp add: extractPath_def suffix_def)

lemma not_sublist_extractPath:
  assumes "CHR ''.'' \<notin> set f" and "\<not> sublist f p" and "\<not> sublist f ''exr''"
  shows "\<not> sublist f (extractPath p)"
proof (cases "suffix ''.exr'' p")
  case True
  then show ?thesis using assms(2) by (simp add: extractPath_def)
next
  case False
  have "extractPath p = p @ CHR ''.'' # ''exr''"
    using False by (simp add: extractPath_def)
  then show ?thesis
    using assms by (simp add: sublist_split_at)
qed

section \<open>The extraction command\<close>

lemma extractCmd_cubemap:
  assumes "or0 (faceCount header) > 1"
  shows "extractCmd ktx2Path previewPath sel header =
           (''ktx extract --level '' @ int_to_string (level sel))
           @ ('' --face '' @ int_to_string (face sel))
           @ (if or0 (layerCount header) > 1 then '' --layer '' @ int_to_string (layer sel) else [])
           @ '' '' @ quoted ktx2Path @ '' '' @ quoted (extractPath previewPath)"
  using assms by (simp add: extractCmd_def extractOptions_def Let_def)

lemma extractOptions_no_depth:
  "or0 (faceCount h) > 1 \<Longrightarrow> \<not> sublist ''--depth'' (extractOptions sel h)"
  by (simp add: extractOptions_def Let_def sublist_Cons_right sublist_split_at)

lemma extractCmd_no_depth:
  "or0 (faceCount h) > 1 \<Longrightarrow> \<not> sublist ''--depth'' a \<Longrightarrow> \<not> sublist ''--depth'' b
     \<Longrightarrow> \<not> sublist ''--depth'' (extractCmd a b sel h)"
  by (simp add: extractCmd_def quoted_def dquote_def extractOptions_def Let_def
        sublist_Cons_right sublist_split_at not_sublist_extractPath)

lemma updateKtx2Preview_issues:
  "\<exists>rest. fst (updateKtx2Preview exec hist ktx2Path previewPath sel (Some header))
     = hist @ extractCmd ktx2Path previewPath sel header # rest"
  by (simp add: updateKtx2Preview_def Let_def split: sum.splits)

text \<open>
  Claim C1. For a cubemap header (\<open>faceCount > 1\<close>) and any selection, the command
  that \<open>updateKtx2Preview\<close> builds and runs first carries \<^verbatim>\<open>--face <face>\<close> and no
  \<^verbatim>\<open>--depth\<close>, whatever \<open>pixelDepth\<close> is: the option part of the command (all of it
  but the two quoted paths) never contains \<^verbatim>\<open>--depth\<close>, and neither does the whole
  command line unless one of the paths spells it. For \<open>faceCount = 6\<close>,
  \<open>pixelDepth = 0\<close>, no layer array, level \<open>0\<close> and face \<open>3\<close> the command is
  \<^verbatim>\<open>ktx extract --level 0 --face 3 "<input>" "<output>.exr"\<close>.
\<close>

theorem cubemap_extract_has_face_and_no_depth:
  assumes "or0 (faceCount header) > 1"
  shows "(\<exists>rest. fst (updateKtx2Preview exec hist ktx2Path previewPath sel (Some header))
            = hist @ extractCmd ktx2Path previewPath sel header # rest)
       \<and> sublist ('' --face '' @ int_to_string (face sel))
            (extractCmd ktx2Path previewPath sel header)
       \<and> \<not> sublist ''--depth'' (extractOptions sel header)
       \<and> extractCmd ktx2Path previewPath sel header
            = extractOptions sel header @ '' '' @ quoted ktx2Path @ '' ''
                @ quoted (extractPath previewPath)
       \<and> (\<not> sublist ''--depth'' ktx2Path \<and> \<not> sublist ''--depth'' previewPath
            \<longrightarrow> \<not> sublist ''--depth'' (extractCmd ktx2Path previewPath sel header))
       \<and> (faceCount header = Some 6 \<and> pixelDepth header = Some 0
              \<and> or0 (layerCount header) \<le> 1 \<and> level sel = 0 \<and> face sel = 3
            \<longrightarrow> extractCmd ktx2Path previewPath sel header
                  = ''ktx extract --level 0 --face 3 '' @ quoted ktx2Path @ '' ''
                      @ quoted (extractPath previewPath)
                \<and> suffix ''.exr'' (extractPath previewPath))"
proof (intro conjI impI)
  show "\<exists>rest. fst (updateKtx2Preview exec hist ktx2Path previewPath sel (Some header))
            = hist @ extractCmd ktx2Path previewPath sel header # rest"
    by (rule updateKtx2Preview_issues)
  show "sublist ('' --face '' @ int_to_string (face sel))
            (extractCmd ktx2Path previewPath sel header)"
    unfolding extractCmd_cubemap [OF assms] by (rule sublist_appendI)
  show "\<not> sublist ''--depth'' (extractOptions sel header)"
    using assms by (rule extractOptions_no_depth)
  show "extractCmd ktx2Path previewPath sel header
            = extractOptions sel header @ '' '' @ quoted ktx2Path @ '' ''
                @ quoted (extractPath previewPath)"
    by (simp add: extractCmd_def)
next
  assume "\<not> sublist ''--depth'' ktx2Path \<and> \<not> sublist ''--depth'' previewPath"
  then show "\<not> sublist ''--depth'' (extractCmd ktx2Path previewPath sel header)"
    using assms by (simp add: extractCmd_no_depth)
next
  assume a: "faceCount header = Some 6 \<and> pixelDepth header = Some 0
              \<and> or0 (layerCount header) \<le> 1 \<and> level sel = 0 \<and> face sel = 3"
  have n0: "int_to_string 0 = ''0''" and n3: "int_to_string 3 = ''3''"
    by (simp_all add: int_to_string_def nat_to_string.simps)
  show "extractCmd ktx2Path previewPath sel header
          = ''ktx extract --level 0 --face 3 '' @ quoted ktx2Path @ '' ''
              @ quoted (extractPath previewPath)"
    using a by (simp add: extractCmd_cubemap [OF assms] n0 n3)
  show "suffix ''.exr'' (extractPath previewPath)"
    by (rule extractPath_suffix)
qed

theorem cubemap_extract_has_face_and_no_depth_witness:
  "or0 (faceCount \<lparr>levelCount = Some 1, layerCount = Some 0, faceCount = Some 6, pixelDepth = Some 0\<rparr>) > 1
   \<and> \<not> sublist ''--depth'' ''cube.ktx2''
   \<and> \<not> sublist ''--depth'' ''/tmp/preview_cube.ktx2.png''
   \<and> extractCmd ''cube.ktx2'' ''/tmp/preview_cube.ktx2.png''
        \<lparr>level = 0, layer = 0, face = 3, depth = 0\<rparr>
        \<lparr>levelCount = Some 1, layerCount = Some 0, faceCount = Some 6, pixelDepth = Some 0\<rparr>
      = ''ktx extract --level 0 --face 3 '' @ quoted ''cube.ktx2'' @ '' ''
          @ quoted ''/tmp/preview_cube.ktx2.png.exr''
   \<and> \<not> sublist ''--depth'' (extractCmd ''cube.ktx2'' ''/tmp/preview_cube.ktx2.png''
        \<lparr>level = 0, layer = 0, face = 3, depth = 0\<rparr>
        \<lparr>levelCount = Some 1, layerCount = Some 0, faceCount = Some 6, pixelDepth = Some 0\<rparr>)"
proof -
  let ?h = "\<lparr>levelCount = Some 1, layerCount = Some 0, faceCount = Some 6, pixelDepth = Some (0::int)\<rparr>"
  let ?s = "\<lparr>level = 0, layer = 0, face = 3, depth = (0::int)\<rparr>"
  have h: "or0 (faceCount ?h) > 1" by (simp add: or0_def)
  have p1: "\<not> sublist ''--depth'' ''cube.ktx2''"
    by (simp add: sublist_Cons_right)
  have p2: "\<not> sublist ''--depth'' ''/tmp/preview_cube.ktx2.png''"
    by (simp add: sublist_Cons_right)
  have e: "extractPath ''/tmp/preview_cube.ktx2.png'' = ''/tmp/preview_cube.ktx2.png.exr''"
    by (simp add: extractPath_def suffix_to_prefix)
  note t = cubemap_extract_has_face_and_no_depth [OF h, of all_succeed "[]" "''cube.ktx2''"
      "''/tmp/preview_cube.ktx2.png''" ?s]
  note t5 = t [THEN conjunct2, THEN conjunct2, THEN conjunct2, THEN conjunct2, THEN conjunct1]
  note t6 = t [THEN conjunct2, THEN conjunct2, THEN conjunct2, THEN conjunct2, THEN conjunct2]
  have c5: "\<not> sublist ''--depth'' (extractCmd ''cube.ktx2'' ''/tmp/preview_cube.ktx2.png'' ?s ?h)"
    using t5 p1 p2 by blast
  have "extractCmd ''cube.ktx2'' ''/tmp/preview_cube.ktx2.png'' ?s ?h
      = ''ktx extract --level 0 --face 3 '' @ quoted ''cube.ktx2'' @ '' ''
          @ quoted (extractPath ''/tmp/preview_cube.ktx2.png'')"
    using t6 by (simp add: or0_def)
  then have c6: "extractCmd ''cube.ktx2'' ''/tmp/preview_cube.ktx2.png'' ?s ?h
      = ''ktx extract --level 0 --face 3 '' @ quoted ''cube.ktx2'' @ '' ''
          @ quoted ''/tmp/preview_cube.ktx2.png.exr''"
    by (simp only: e)
  show ?thesis
    using h p1 p2 c5 c6 by blast
qed

lemma extractOptions_no_layer:
  "or0 (layerCount h) \<le> 1 \<Longrightarrow> \<not> sublist ''--layer'' (extractOptions sel h)"
  by (simp add: extractOptions_def Let_def sublist_Cons_right sublist_split_at)

lemma extractCmd_no_layer:
  "or0 (layerCount h) \<le> 1 \<Longrightarrow> \<not> sublist ''--layer'' a \<Longrightarrow> \<not> sublist ''--layer'' b
     \<Longrightarrow> \<not> sublist ''--layer'' (extractCmd a b sel h)"
  by (simp add: extractCmd_def quoted_def dquote_def extractOptions_def Let_def
        sublist_Cons_right sublist_split_at not_sublist_extractPath)

lemma extractOptions_layer:
  "or0 (layerCount h) > 1 \<Longrightarrow>
     suffix ('' --layer '' @ int_to_string (layer sel)) (extractOptions sel h)"
  by (simp add: extractOptions_def Let_def suffix_def)

lemma or0_small: "v = None \<or> v = Some 0 \<or> v = Some 1 \<Longrightarrow> or0 v \<le> 1"
  by (auto simp: or0_def)

text \<open>
  Claim C7. When the header's \<open>layerCount\<close> is absent, \<open>0\<close> or \<open>1\<close>, the command of
  \<open>updateKtx2Preview\<close> has no \<^verbatim>\<open>--layer\<close> option (none in its option part, and none in
  the whole line unless a path spells it); when \<open>layerCount > 1\<close> its option part ends
  with \<^verbatim>\<open>--layer <layer>\<close>. A count of \<open>1\<close> leaves the selector out; it is not passed
  as \<open>0\<close>.
\<close>

theorem layer_flag_only_for_arrays:
  "(\<exists>rest. fst (updateKtx2Preview exec hist ktx2Path previewPath sel (Some header))
       = hist @ extractCmd ktx2Path previewPath sel header # rest)
   \<and> extractCmd ktx2Path previewPath sel header
       = extractOptions sel header @ '' '' @ quoted ktx2Path @ '' ''
           @ quoted (extractPath previewPath)
   \<and> (layerCount header = None \<or> layerCount header = Some 0 \<or> layerCount header = Some 1
        \<longrightarrow> \<not> sublist ''--layer'' (extractOptions sel header)
          \<and> (\<not> sublist ''--layer'' ktx2Path \<and> \<not> sublist ''--layer'' previewPath
               \<longrightarrow> \<not> sublist ''--layer'' (extractCmd ktx2Path previewPath sel header)))
   \<and> (or0 (layerCount header) > 1
        \<longrightarrow> suffix ('' --layer '' @ int_to_string (layer sel)) (extractOptions sel header)
          \<and> sublist ('' --layer '' @ int_to_string (layer sel))
               (extractCmd ktx2Path previewPath sel header))"
proof (intro conjI impI)
  show "\<exists>rest. fst (updateKtx2Preview exec hist ktx2Path previewPath sel (Some header))
       = hist @ extractCmd ktx2Path previewPath sel header # rest"
    by (rule updateKtx2Preview_issues)
  show c: "extractCmd ktx2Path previewPath sel header
       = extractOptions sel header @ '' '' @ quoted ktx2Path @ '' ''
           @ quoted (extractPath previewPath)"
    by (simp add: extractCmd_def)
  {
    assume "layerCount header = None \<or> layerCount header = Some 0 \<or> layerCount header = Some 1"
    then have small: "or0 (layerCount header) \<le> 1"
      by (rule or0_small)
    then show "\<not> sublist ''--layer'' (extractOptions sel header)"
      by (rule extractOptions_no_layer)
    assume "\<not> sublist ''--layer'' ktx2Path \<and> \<not> sublist ''--layer'' previewPath"
    with small show "\<not> sublist ''--layer'' (extractCmd ktx2Path previewPath sel header)"
      by (simp add: extractCmd_no_layer)
  }
  {
    assume big: "or0 (layerCount header) > 1"
    then show s: "suffix ('' --layer '' @ int_to_string (layer sel)) (extractOptions sel header)"
      by (rule extractOptions_layer)
    then have "sublist ('' --layer '' @ int_to_string (layer sel)) (extractOptions sel header)"
      by (rule suffix_imp_sublist)
    then show "sublist ('' --layer '' @ int_to_string (layer sel))
               (extractCmd ktx2Path previewPath sel header)"
      unfolding c by (rule sublist_order.order_trans) simp
  }
qed

theorem layer_flag_only_for_arrays_witness:
  "layerCount \<lparr>levelCount = Some 5, layerCount = Some 1, faceCount = Some 1, pixelDepth = Some 0\<rparr> = Some 1
   \<and> \<not> sublist ''--layer'' ''a.ktx2'' \<and> \<not> sublist ''--layer'' ''/tmp/p.png''
   \<and> \<not> sublist ''--layer'' (extractCmd ''a.ktx2'' ''/tmp/p.png''
         \<lparr>level = 2, layer = 0, face = 0, depth = 0\<rparr>
         \<lparr>levelCount = Some 5, layerCount = Some 1, faceCount = Some 1, pixelDepth = Some 0\<rparr>)
   \<and> extractCmd ''a.ktx2'' ''/tmp/p.png''
         \<lparr>level = 2, layer = 0, face = 0, depth = 0\<rparr>
         \<lparr>levelCount = Some 5, layerCount = Some 1, faceCount = Some 1, pixelDepth = Some 0\<rparr>
       = ''ktx extract --level 2 '' @ quoted ''a.ktx2'' @ '' '' @ quoted ''/tmp/p.png.exr''
   \<and> or0 (layerCount \<lparr>levelCount = Some 5, layerCount = Some 4, faceCount = Some 1, pixelDepth = Some 0\<rparr>) > 1
   \<and> sublist '' --layer 3''
        (extractCmd ''a.ktx2'' ''/tmp/p.png''
           \<lparr>level = 2, layer = 3, face = 0, depth = 0\<rparr>
           \<lparr>levelCount = Some 5, layerCount = Some 4, faceCount = Some 1, pixelDepth = Some 0\<rparr>)"
proof -
  let ?h1 = "\<lparr>levelCount = Some 5, layerCount = Some 1, faceCount = Some 1, pixelDepth = Some (0::int)\<rparr>"
  let ?h4 = "\<lparr>levelCount = Some 5, layerCount = Some 4, faceCount = Some 1, pixelDepth = Some (0::int)\<rparr>"
  let ?s0 = "\<lparr>level = 2, layer = 0, face = 0, depth = (0::int)\<rparr>"
  let ?s3 = "\<lparr>level = 2, layer = 3, face = 0, depth = (0::int)\<rparr>"
  have p1: "\<not> sublist ''--layer'' ''a.ktx2''" and p2: "\<not> sublist ''--layer'' ''/tmp/p.png''"
    by (simp_all add: sublist_Cons_right)
  have l1: "layerCount ?h1 = Some 1" by simp
  have l4: "or0 (layerCount ?h4) > 1" by (simp add: or0_def)
  note a = layer_flag_only_for_arrays [of all_succeed "[]" "''a.ktx2''" "''/tmp/p.png''" ?s0 ?h1]
  note b = layer_flag_only_for_arrays [of all_succeed "[]" "''a.ktx2''" "''/tmp/p.png''" ?s3 ?h4]
  have c1: "\<not> sublist ''--layer'' (extractCmd ''a.ktx2'' ''/tmp/p.png'' ?s0 ?h1)"
    using a [THEN conjunct2, THEN conjunct2, THEN conjunct1] l1 p1 p2 by blast
  have c2: "extractCmd ''a.ktx2'' ''/tmp/p.png'' ?s0 ?h1
       = ''ktx extract --level 2 '' @ quoted ''a.ktx2'' @ '' '' @ quoted ''/tmp/p.png.exr''"
    by (simp add: extractCmd_def extractOptions_def Let_def or0_def int_to_string_def
          nat_to_string.simps extractPath_def suffix_to_prefix)
  have n3: "int_to_string 3 = ''3''"
    by (simp add: int_to_string_def nat_to_string.simps)
  have "sublist ('' --layer '' @ int_to_string (layer ?s3)) (extractCmd ''a.ktx2'' ''/tmp/p.png'' ?s3 ?h4)"
    using b [THEN conjunct2, THEN conjunct2, THEN conjunct2] l4 by blast
  then have c3: "sublist '' --layer 3'' (extractCmd ''a.ktx2'' ''/tmp/p.png'' ?s3 ?h4)"
    by (simp add: n3)
  show ?thesis
    using l1 p1 p2 c1 c2 l4 c3 by blast
qed

lemma fallbackCmd_no_layer:
  "\<not> sublist ''--layer'' a \<Longrightarrow> \<not> sublist ''--layer'' b
     \<Longrightarrow> \<not> sublist ''--layer'' (fallbackCmd a b sel)"
  by (simp add: fallbackCmd_def quoted_def dquote_def
        sublist_Cons_right sublist_split_at not_sublist_extractPath)

lemma fallbackCmd_no_depth:
  "\<not> sublist ''--depth'' a \<Longrightarrow> \<not> sublist ''--depth'' b
     \<Longrightarrow> \<not> sublist ''--depth'' (fallbackCmd a b sel)"
  by (simp add: fallbackCmd_def quoted_def dquote_def
        sublist_Cons_right sublist_split_at not_sublist_extractPath)

text \<open>
  Claim C2. When the first extraction command fails and the header is a cubemap,
  \<open>updateKtx2Preview\<close> runs exactly one more command, the reduced
  \<^verbatim>\<open>ktx extract --level <level> --face <face> "<input>" "<output>"\<close> (with neither
  \<^verbatim>\<open>--layer\<close> nor \<^verbatim>\<open>--depth\<close>), and throws only if that one fails too, with its
  error; when the header is not a cubemap the first error is thrown and nothing else is
  run.
\<close>

theorem cubemap_failure_retried_once:
  assumes "exec hist (extractCmd ktx2Path previewPath sel header) = Inl err"
  shows "(or0 (faceCount header) > 1 \<longrightarrow>
            fst (updateKtx2Preview exec hist ktx2Path previewPath sel (Some header))
              = hist @ [extractCmd ktx2Path previewPath sel header,
                        fallbackCmd ktx2Path previewPath sel]
          \<and> fallbackCmd ktx2Path previewPath sel
              = ''ktx extract --level '' @ int_to_string (level sel)
                  @ '' --face '' @ int_to_string (face sel)
                  @ '' '' @ quoted ktx2Path @ '' '' @ quoted (extractPath previewPath)
          \<and> (\<not> sublist ''--layer'' ktx2Path \<and> \<not> sublist ''--layer'' previewPath
               \<longrightarrow> \<not> sublist ''--layer'' (fallbackCmd ktx2Path previewPath sel))
          \<and> (\<not> sublist ''--depth'' ktx2Path \<and> \<not> sublist ''--depth'' previewPath
               \<longrightarrow> \<not> sublist ''--depth'' (fallbackCmd ktx2Path previewPath sel))
          \<and> snd (updateKtx2Preview exec hist ktx2Path previewPath sel (Some header))
              = (case exec (hist @ [extractCmd ktx2Path previewPath sel header])
                        (fallbackCmd ktx2Path previewPath sel) of
                   Inl fallbackError \<Rightarrow> Inl fallbackError
                 | Inr out \<Rightarrow> Inr (extractPath previewPath)))
       \<and> (\<not> or0 (faceCount header) > 1 \<longrightarrow>
            updateKtx2Preview exec hist ktx2Path previewPath sel (Some header)
              = (hist @ [extractCmd ktx2Path previewPath sel header], Inl err))"
proof (intro conjI impI)
  assume cube: "or0 (faceCount header) > 1"
  show "fst (updateKtx2Preview exec hist ktx2Path previewPath sel (Some header))
              = hist @ [extractCmd ktx2Path previewPath sel header,
                        fallbackCmd ktx2Path previewPath sel]"
    using assms cube by (simp add: updateKtx2Preview_def Let_def split: sum.splits)
  show "snd (updateKtx2Preview exec hist ktx2Path previewPath sel (Some header))
              = (case exec (hist @ [extractCmd ktx2Path previewPath sel header])
                        (fallbackCmd ktx2Path previewPath sel) of
                   Inl fallbackError \<Rightarrow> Inl fallbackError
                 | Inr out \<Rightarrow> Inr (extractPath previewPath))"
    using assms cube by (simp add: updateKtx2Preview_def Let_def split: sum.splits)
next
  show "fallbackCmd ktx2Path previewPath sel
              = ''ktx extract --level '' @ int_to_string (level sel)
                  @ '' --face '' @ int_to_string (face sel)
                  @ '' '' @ quoted ktx2Path @ '' '' @ quoted (extractPath previewPath)"
    by (simp add: fallbackCmd_def)
next
  assume "\<not> sublist ''--layer'' ktx2Path \<and> \<not> sublist ''--layer'' previewPath"
  then show "\<not> sublist ''--layer'' (fallbackCmd ktx2Path previewPath sel)"
    by (simp add: fallbackCmd_no_layer)
next
  assume "\<not> sublist ''--depth'' ktx2Path \<and> \<not> sublist ''--depth'' previewPath"
  then show "\<not> sublist ''--depth'' (fallbackCmd ktx2Path previewPath sel)"
    by (simp add: fallbackCmd_no_depth)
next
  assume "\<not> or0 (faceCount header) > 1"
  then show "updateKtx2Preview exec hist ktx2Path previewPath sel (Some header)
              = (hist @ [extractCmd ktx2Path previewPath sel header], Inl err)"
    using assms by (simp add: updateKtx2Preview_def Let_def)
qed

theorem cubemap_failure_retried_once_witness:
  "first_fails [] (extractCmd ''c.ktx2'' ''/tmp/p.png''
       \<lparr>level = 1, layer = 2, face = 3, depth = 0\<rparr>
       \<lparr>levelCount = Some 4, layerCount = Some 5, faceCount = Some 6, pixelDepth = Some 0\<rparr>)
     = Inl (ExecError ''invalid'')
   \<and> or0 (faceCount \<lparr>levelCount = Some 4, layerCount = Some 5, faceCount = Some 6, pixelDepth = Some 0\<rparr>) > 1
   \<and> \<not> sublist ''--layer'' ''c.ktx2'' \<and> \<not> sublist ''--layer'' ''/tmp/p.png''
   \<and> \<not> sublist ''--depth'' ''c.ktx2'' \<and> \<not> sublist ''--depth'' ''/tmp/p.png''
   \<and> updateKtx2Preview first_fails [] ''c.ktx2'' ''/tmp/p.png''
       \<lparr>level = 1, layer = 2, face = 3, depth = 0\<rparr>
       (Some \<lparr>levelCount = Some 4, layerCount = Some 5, faceCount = Some 6, pixelDepth = Some 0\<rparr>)
     = ([''ktx extract --level 1 --face 3 --layer 2 '' @ quoted ''c.ktx2'' @ '' ''
           @ quoted ''/tmp/p.png.exr'',
         ''ktx extract --level 1 --face 3 '' @ quoted ''c.ktx2'' @ '' ''
           @ quoted ''/tmp/p.png.exr''],
        Inr ''/tmp/p.png.exr'')
   \<and> \<not> sublist ''--layer'' (fallbackCmd ''c.ktx2'' ''/tmp/p.png''
         \<lparr>level = 1, layer = 2, face = 3, depth = 0\<rparr>)
   \<and> \<not> sublist ''--depth'' (fallbackCmd ''c.ktx2'' ''/tmp/p.png''
         \<lparr>level = 1, layer = 2, face = 3, depth = 0\<rparr>)
   \<and> all_fail [] (extractCmd ''c.ktx2'' ''/tmp/p.png''
       \<lparr>level = 1, layer = 2, face = 3, depth = 0\<rparr>
       \<lparr>levelCount = Some 4, layerCount = Some 5, faceCount = Some 1, pixelDepth = Some 0\<rparr>)
     = Inl (ExecError ''invalid'')
   \<and> \<not> or0 (faceCount \<lparr>levelCount = Some 4, layerCount = Some 5, faceCount = Some 1, pixelDepth = Some 0\<rparr>) > 1
   \<and> updateKtx2Preview all_fail [] ''c.ktx2'' ''/tmp/p.png''
       \<lparr>level = 1, layer = 2, face = 3, depth = 0\<rparr>
       (Some \<lparr>levelCount = Some 4, layerCount = Some 5, faceCount = Some 1, pixelDepth = Some 0\<rparr>)
     = ([''ktx extract --level 1 --layer 2 '' @ quoted ''c.ktx2'' @ '' ''
           @ quoted ''/tmp/p.png.exr''],
        Inl (ExecError ''invalid''))"
proof -
  let ?s = "\<lparr>level = 1, layer = 2, face = 3, depth = (0::int)\<rparr>"
  let ?h6 = "\<lparr>levelCount = Some 4, layerCount = Some 5, faceCount = Some 6, pixelDepth = Some (0::int)\<rparr>"
  let ?h1 = "\<lparr>levelCount = Some 4, layerCount = Some 5, faceCount = Some 1, pixelDepth = Some (0::int)\<rparr>"
  have nums: "int_to_string 1 = ''1''" "int_to_string 2 = ''2''" "int_to_string 3 = ''3''"
    by (simp_all add: int_to_string_def nat_to_string.simps)
  have e: "extractPath ''/tmp/p.png'' = ''/tmp/p.png.exr''"
    by (simp add: extractPath_def suffix_to_prefix)
  have cmd6: "extractCmd ''c.ktx2'' ''/tmp/p.png'' ?s ?h6
      = ''ktx extract --level 1 --face 3 --layer 2 '' @ quoted ''c.ktx2'' @ '' ''
           @ quoted ''/tmp/p.png.exr''"
    by (simp add: extractCmd_def extractOptions_def Let_def or0_def nums e)
  have cmd1: "extractCmd ''c.ktx2'' ''/tmp/p.png'' ?s ?h1
      = ''ktx extract --level 1 --layer 2 '' @ quoted ''c.ktx2'' @ '' ''
           @ quoted ''/tmp/p.png.exr''"
    by (simp add: extractCmd_def extractOptions_def Let_def or0_def nums e)
  have fb: "fallbackCmd ''c.ktx2'' ''/tmp/p.png'' ?s
      = ''ktx extract --level 1 --face 3 '' @ quoted ''c.ktx2'' @ '' ''
           @ quoted ''/tmp/p.png.exr''"
    by (simp add: fallbackCmd_def nums e)
  have a6: "first_fails [] (extractCmd ''c.ktx2'' ''/tmp/p.png'' ?s ?h6) = Inl (ExecError ''invalid'')"
    by (simp add: first_fails_def)
  have a1: "all_fail [] (extractCmd ''c.ktx2'' ''/tmp/p.png'' ?s ?h1) = Inl (ExecError ''invalid'')"
    by (simp add: all_fail_def)
  have cube: "or0 (faceCount ?h6) > 1" and flat: "\<not> or0 (faceCount ?h1) > 1"
    by (simp_all add: or0_def)
  have p: "\<not> sublist ''--layer'' ''c.ktx2''" "\<not> sublist ''--layer'' ''/tmp/p.png''"
      "\<not> sublist ''--depth'' ''c.ktx2''" "\<not> sublist ''--depth'' ''/tmp/p.png''"
    by (simp_all add: sublist_Cons_right)
  note t6 = cubemap_failure_retried_once [where exec = first_fails and hist = "[]"
      and ktx2Path = "''c.ktx2''" and previewPath = "''/tmp/p.png''" and sel = ?s
      and header = ?h6 and err = "ExecError ''invalid''", OF a6, THEN conjunct1, THEN mp, OF cube]
  note t1 = cubemap_failure_retried_once [where exec = all_fail and hist = "[]"
      and ktx2Path = "''c.ktx2''" and previewPath = "''/tmp/p.png''" and sel = ?s
      and header = ?h1 and err = "ExecError ''invalid''", OF a1, THEN conjunct2, THEN mp, OF flat]
  have r2: "first_fails [extractCmd ''c.ktx2'' ''/tmp/p.png'' ?s ?h6]
              (fallbackCmd ''c.ktx2'' ''/tmp/p.png'' ?s) = Inr []"
    by (simp add: first_fails_def)
  have f6: "fst (updateKtx2Preview first_fails [] ''c.ktx2'' ''/tmp/p.png'' ?s (Some ?h6))
      = [''ktx extract --level 1 --face 3 --layer 2 '' @ quoted ''c.ktx2'' @ '' ''
           @ quoted ''/tmp/p.png.exr'',
         ''ktx extract --level 1 --face 3 '' @ quoted ''c.ktx2'' @ '' ''
           @ quoted ''/tmp/p.png.exr'']"
    using t6 [THEN conjunct1] by (simp only: cmd6 fb append_Nil)
  have s6: "snd (updateKtx2Preview first_fails [] ''c.ktx2'' ''/tmp/p.png'' ?s (Some ?h6))
      = Inr ''/tmp/p.png.exr''"
    using t6 [THEN conjunct2, THEN conjunct2, THEN conjunct2, THEN conjunct2]
    by (simp only: append_Nil r2 sum.case e)
  have u6: "updateKtx2Preview first_fails [] ''c.ktx2'' ''/tmp/p.png'' ?s (Some ?h6)
     = ([''ktx extract --level 1 --face 3 --layer 2 '' @ quoted ''c.ktx2'' @ '' ''
           @ quoted ''/tmp/p.png.exr'',
         ''ktx extract --level 1 --face 3 '' @ quoted ''c.ktx2'' @ '' ''
           @ quoted ''/tmp/p.png.exr''],
        Inr ''/tmp/p.png.exr'')"
    using f6 s6 by (simp only: prod_eq_iff fst_conv snd_conv simp_thms)
  have nl: "\<not> sublist ''--layer'' (fallbackCmd ''c.ktx2'' ''/tmp/p.png'' ?s)"
    using t6 [THEN conjunct2, THEN conjunct2, THEN conjunct1] p by blast
  have nd: "\<not> sublist ''--depth'' (fallbackCmd ''c.ktx2'' ''/tmp/p.png'' ?s)"
    using t6 [THEN conjunct2, THEN conjunct2, THEN conjunct2, THEN conjunct1] p by blast
  have u1: "updateKtx2Preview all_fail [] ''c.ktx2'' ''/tmp/p.png'' ?s (Some ?h1)
     = ([''ktx extract --level 1 --layer 2 '' @ quoted ''c.ktx2'' @ '' ''
           @ quoted ''/tmp/p.png.exr''],
        Inl (ExecError ''invalid''))"
    using t1 by (simp only: cmd1 append_Nil)
  show ?thesis
    using a6 cube p u6 nl nd a1 flat u1 by blast
qed

lemma extractCmd_target: "suffix ('' '' @ quoted (extractPath p)) (extractCmd a p sel h)"
  by (simp add: extractCmd_def suffix_def)

lemma fallbackCmd_target: "suffix ('' '' @ quoted (extractPath p)) (fallbackCmd a p sel)"
  by (simp add: fallbackCmd_def suffix_def)

lemma updateKtx2Preview_commands:
  "set (drop (length hist) (fst (updateKtx2Preview exec hist a p sel info)))
     \<subseteq> {extractCmd a p sel (case info of None \<Rightarrow> emptyHeader | Some h \<Rightarrow> h),
         fallbackCmd a p sel}"
  by (simp add: updateKtx2Preview_def Let_def split: sum.splits)

text \<open>
  Claim C9. \<open>updateKtx2Preview\<close> extracts to a path that ends in \<^verbatim>\<open>.exr\<close>: the preview
  path itself when it already ends so, the preview path with \<^verbatim>\<open>.exr\<close> appended
  otherwise. Every command it runs names that path, quoted, as its last argument, and
  whenever it returns a path it returns that one.
\<close>

theorem extraction_target_ends_in_exr:
  "suffix ''.exr'' (extractPath previewPath)
   \<and> (suffix ''.exr'' previewPath \<longrightarrow> extractPath previewPath = previewPath)
   \<and> (\<not> suffix ''.exr'' previewPath \<longrightarrow> extractPath previewPath = previewPath @ ''.exr'')
   \<and> (\<forall>c \<in> set (drop (length hist)
                (fst (updateKtx2Preview exec hist ktx2Path previewPath sel info))).
          suffix ('' '' @ quoted (extractPath previewPath)) c)
   \<and> (\<forall>p. snd (updateKtx2Preview exec hist ktx2Path previewPath sel info) = Inr p
          \<longrightarrow> p = extractPath previewPath)
   \<and> (\<forall>out. exec hist (extractCmd ktx2Path previewPath sel
                  (case info of None \<Rightarrow> emptyHeader | Some h \<Rightarrow> h)) = Inr out
          \<longrightarrow> snd (updateKtx2Preview exec hist ktx2Path previewPath sel info)
                = Inr (extractPath previewPath))"
proof (intro conjI impI allI ballI)
  show "suffix ''.exr'' (extractPath previewPath)"
    by (rule extractPath_suffix)
  show "suffix ''.exr'' previewPath \<Longrightarrow> extractPath previewPath = previewPath"
    by (simp add: extractPath_def)
  show "\<not> suffix ''.exr'' previewPath \<Longrightarrow> extractPath previewPath = previewPath @ ''.exr''"
    by (simp add: extractPath_def)
next
  fix c
  assume "c \<in> set (drop (length hist)
                (fst (updateKtx2Preview exec hist ktx2Path previewPath sel info)))"
  then have "c = extractCmd ktx2Path previewPath sel
                   (case info of None \<Rightarrow> emptyHeader | Some h \<Rightarrow> h)
             \<or> c = fallbackCmd ktx2Path previewPath sel"
    using updateKtx2Preview_commands [of hist exec ktx2Path previewPath sel info] by blast
  then show "suffix ('' '' @ quoted (extractPath previewPath)) c"
    using extractCmd_target fallbackCmd_target by blast
next
  fix p
  assume "snd (updateKtx2Preview exec hist ktx2Path previewPath sel info) = Inr p"
  then show "p = extractPath previewPath"
    by (auto simp: updateKtx2Preview_def Let_def split: sum.splits if_splits)
next
  fix out
  assume "exec hist (extractCmd ktx2Path previewPath sel
                  (case info of None \<Rightarrow> emptyHeader | Some h \<Rightarrow> h)) = Inr out"
  then show "snd (updateKtx2Preview exec hist ktx2Path previewPath sel info)
                = Inr (extractPath previewPath)"
    by (simp add: updateKtx2Preview_def Let_def)
qed

theorem extraction_target_ends_in_exr_witness:
  "\<not> suffix ''.exr'' ''/tmp/p.png''
   \<and> extractPath ''/tmp/p.png'' = ''/tmp/p.png.exr''
   \<and> suffix ''.exr'' ''/tmp/q.exr''
   \<and> extractPath ''/tmp/q.exr'' = ''/tmp/q.exr''
   \<and> all_succeed [] (extractCmd ''a.ktx2'' ''/tmp/p.png''
          \<lparr>level = 0, layer = 0, face = 0, depth = 0\<rparr> emptyHeader) = Inr []
   \<and> snd (updateKtx2Preview all_succeed [] ''a.ktx2'' ''/tmp/p.png''
          \<lparr>level = 0, layer = 0, face = 0, depth = 0\<rparr> None) = Inr ''/tmp/p.png.exr''
   \<and> ''ktx extract --level 0 '' @ quoted ''a.ktx2'' @ '' '' @ quoted ''/tmp/p.png.exr''
        \<in> set (drop (length ([]::string list))
             (fst (updateKtx2Preview all_succeed [] ''a.ktx2'' ''/tmp/p.png''
                \<lparr>level = 0, layer = 0, face = 0, depth = 0\<rparr> None)))
   \<and> suffix ('' '' @ quoted ''/tmp/p.png.exr'')
        (''ktx extract --level 0 '' @ quoted ''a.ktx2'' @ '' '' @ quoted ''/tmp/p.png.exr'')"
proof -
  let ?s = "\<lparr>level = 0, layer = 0, face = 0, depth = (0::int)\<rparr>"
  let ?cmd = "''ktx extract --level 0 '' @ quoted ''a.ktx2'' @ '' '' @ quoted ''/tmp/p.png.exr''"
  have np: "\<not> suffix ''.exr'' ''/tmp/p.png''" and sq: "suffix ''.exr'' ''/tmp/q.exr''"
    by (simp_all add: suffix_to_prefix)
  note p = extraction_target_ends_in_exr [of "''/tmp/p.png''" "[]" all_succeed "''a.ktx2''" ?s None]
  note q = extraction_target_ends_in_exr [of "''/tmp/q.exr''" "[]" all_succeed "''a.ktx2''" ?s None]
  have e: "extractPath ''/tmp/p.png'' = ''/tmp/p.png.exr''"
    using p [THEN conjunct2, THEN conjunct2, THEN conjunct1] np by simp
  have eq: "extractPath ''/tmp/q.exr'' = ''/tmp/q.exr''"
    using q [THEN conjunct2, THEN conjunct1] sq by blast
  have ok: "all_succeed [] (extractCmd ''a.ktx2'' ''/tmp/p.png'' ?s emptyHeader) = Inr []"
    by (simp add: all_succeed_def)
  have r: "snd (updateKtx2Preview all_succeed [] ''a.ktx2'' ''/tmp/p.png'' ?s None)
      = Inr ''/tmp/p.png.exr''"
    using p [THEN conjunct2, THEN conjunct2, THEN conjunct2, THEN conjunct2, THEN conjunct2]
      ok by (simp add: e)
  have n0: "int_to_string 0 = ''0''"
    by (simp add: int_to_string_def nat_to_string.simps)
  have cmd: "extractCmd ''a.ktx2'' ''/tmp/p.png'' ?s emptyHeader = ?cmd"
    by (simp add: extractCmd_def extractOptions_def Let_def emptyHeader_def or0_def n0 e)
  have m: "?cmd \<in> set (drop (length ([]::string list))
             (fst (updateKtx2Preview all_succeed [] ''a.ktx2'' ''/tmp/p.png'' ?s None)))"
    using ok cmd by (simp add: updateKtx2Preview_def Let_def)
  have s: "suffix ('' '' @ quoted ''/tmp/p.png.exr'') ?cmd"
    using p [THEN conjunct2, THEN conjunct2, THEN conjunct2, THEN conjunct1] m
    unfolding e by blast
  show ?thesis
    using np e sq eq ok r m s by blast
qed

section \<open>Selector buttons: \<^verbatim>\<open>renderButtonGroup\<close>\<close>

text \<open>
  The class attribute of button \<open>i\<close>: \<^verbatim>\<open>preview-btn${i===selected?' selected':''}\<close>.
\<close>

definition buttonClass :: "int \<Rightarrow> nat \<Rightarrow> string" where
  "buttonClass selected i = ''preview-btn'' @ (if int i = selected then '' selected'' else [])"

text \<open>The markup of button \<open>i\<close>, the value of the inner template at index \<open>i\<close>.\<close>

definition renderButton :: "string \<Rightarrow> int \<Rightarrow> nat \<Rightarrow> string" where
  "renderButton ident selected i =
     ''<button type='' @ quoted ''button''
       @ '' data-value='' @ quoted (nat_to_string i)
       @ '' class='' @ quoted (buttonClass selected i)
       @ '' data-group='' @ quoted ident
       @ ''>'' @ nat_to_string i @ ''</button>''"

text \<open>
  \<^verbatim>\<open>Array.from({length: count}, (_, i) => ...)\<close>: one entry for each index from \<open>0\<close> up to
  \<open>count - 1\<close>; a negative \<open>count\<close> is a length of \<open>0\<close>.
\<close>

definition renderButtons :: "string \<Rightarrow> int \<Rightarrow> int \<Rightarrow> string list" where
  "renderButtons ident count selected = map (renderButton ident selected) [0..<nat count]"

definition renderButtonGroup :: "string \<Rightarrow> int \<Rightarrow> int \<Rightarrow> string" where
  "renderButtonGroup ident count selected =
     ''<div id='' @ quoted (ident @ ''-group'')
       @ '' style='' @ quoted ''margin: 4px 0; display: flex; flex-wrap: wrap; gap: 4px;''
       @ ''>\<newline>            ''
       @ concat (renderButtons ident count selected)
       @ ''\<newline>        </div>''"

lemma letter_s_not_digit: "CHR ''s'' \<notin> digit_chars"
  by (simp add: digit_chars_def)

lemma selected_not_in_number [simp]: "\<not> sublist ''selected'' (nat_to_string i)"
proof
  assume "sublist ''selected'' (nat_to_string i)"
  then have "set ''selected'' \<subseteq> set (nat_to_string i)"
    by (rule set_mono_sublist)
  then have "CHR ''s'' \<in> digit_chars"
    using set_nat_to_string [of i] by auto
  then show False
    by (simp add: letter_s_not_digit)
qed

lemma selected_in_button:
  assumes "\<not> sublist ''selected'' ident"
  shows "sublist ''selected'' (renderButton ident selected i) \<longleftrightarrow> int i = selected"
  using assms
  by (simp add: renderButton_def buttonClass_def quoted_def dquote_def
        sublist_Cons_right sublist_split_at)

lemma count_selected:
  "length (filter (\<lambda>i. int i = selected) [0..<n])
     = (if 0 \<le> selected \<and> selected < int n then 1 else 0)"
proof (induction n)
  case 0
  then show ?case by simp
next
  case (Suc n)
  then show ?case by (auto split: if_splits)
qed

lemma buttonClass_selected:
  "buttonClass selected i = ''preview-btn selected'' \<longleftrightarrow> int i = selected"
  by (simp add: buttonClass_def)

text \<open>
  Claim C10. For any id, count and selected index, \<open>renderButtonGroup\<close> wraps the
  concatenation of exactly \<open>count\<close> buttons (none for a negative count); button \<open>i\<close>
  carries \<^verbatim>\<open>data-value="i"\<close> for \<open>i = 0, ..., count - 1\<close> in this order, and its class
  is \<^verbatim>\<open>preview-btn selected\<close> if \<open>i\<close> is the selected index and \<^verbatim>\<open>preview-btn\<close>
  otherwise. So one button is marked when \<open>0 \<le> selected < count\<close> and none otherwise.
  Unless the id itself spells it, the word \<^verbatim>\<open>selected\<close> occurs in exactly the marked
  buttons.
\<close>

theorem button_group_marks_selected:
  "renderButtonGroup ident count selected
     = ''<div id='' @ quoted (ident @ ''-group'')
         @ '' style='' @ quoted ''margin: 4px 0; display: flex; flex-wrap: wrap; gap: 4px;''
         @ ''>\<newline>            ''
         @ concat (renderButtons ident count selected)
         @ ''\<newline>        </div>''
   \<and> length (renderButtons ident count selected) = nat count
   \<and> (0 \<le> count \<longrightarrow> int (length (renderButtons ident count selected)) = count)
   \<and> (\<forall>i < nat count.
         renderButtons ident count selected ! i
           = ''<button type='' @ quoted ''button''
               @ '' data-value='' @ quoted (nat_to_string i)
               @ '' class='' @ quoted (buttonClass selected i)
               @ '' data-group='' @ quoted ident
               @ ''>'' @ nat_to_string i @ ''</button>''
         \<and> (buttonClass selected i = ''preview-btn selected'' \<longleftrightarrow> int i = selected)
         \<and> (buttonClass selected i = ''preview-btn'' \<longleftrightarrow> int i \<noteq> selected))
   \<and> length (filter (\<lambda>i. buttonClass selected i = ''preview-btn selected'') [0..<nat count])
       = (if 0 \<le> selected \<and> selected < count then 1 else 0)
   \<and> (\<not> sublist ''selected'' ident \<longrightarrow>
        (\<forall>i < nat count.
           sublist ''selected'' (renderButtons ident count selected ! i) \<longleftrightarrow> int i = selected)
        \<and> length (filter (sublist ''selected'') (renderButtons ident count selected))
            = (if 0 \<le> selected \<and> selected < count then 1 else 0))"
proof (intro conjI impI allI)
  show "renderButtonGroup ident count selected
     = ''<div id='' @ quoted (ident @ ''-group'')
         @ '' style='' @ quoted ''margin: 4px 0; display: flex; flex-wrap: wrap; gap: 4px;''
         @ ''>\<newline>            ''
         @ concat (renderButtons ident count selected)
         @ ''\<newline>        </div>''"
    by (simp add: renderButtonGroup_def)
  show "length (renderButtons ident count selected) = nat count"
    by (simp add: renderButtons_def)
  show "0 \<le> count \<Longrightarrow> int (length (renderButtons ident count selected)) = count"
    by (simp add: renderButtons_def)
  have sel: "length (filter (\<lambda>i. int i = selected) [0..<nat count])
       = (if 0 \<le> selected \<and> selected < count then 1 else 0)"
    by (simp add: count_selected)
  show "length (filter (\<lambda>i. buttonClass selected i = ''preview-btn selected'') [0..<nat count])
       = (if 0 \<le> selected \<and> selected < count then 1 else 0)"
    using sel by (simp only: buttonClass_selected)
  {
    assume free: "\<not> sublist ''selected'' ident"
    have "filter (sublist ''selected'') (renderButtons ident count selected)
        = map (renderButton ident selected) (filter (\<lambda>i. int i = selected) [0..<nat count])"
      by (simp add: renderButtons_def filter_map comp_def selected_in_button [OF free])
    then show "length (filter (sublist ''selected'') (renderButtons ident count selected))
            = (if 0 \<le> selected \<and> selected < count then 1 else 0)"
      using sel by simp
  }
next
  fix i
  assume i: "i < nat count"
  show "renderButtons ident count selected ! i
           = ''<button type='' @ quoted ''button''
               @ '' data-value='' @ quoted (nat_to_string i)
               @ '' class='' @ quoted (buttonClass selected i)
               @ '' data-group='' @ quoted ident
               @ ''>'' @ nat_to_string i @ ''</button>''"
    using i by (simp add: renderButtons_def renderButton_def)
  show "buttonClass selected i = ''preview-btn selected'' \<longleftrightarrow> int i = selected"
    by (rule buttonClass_selected)
  show "buttonClass selected i = ''preview-btn'' \<longleftrightarrow> int i \<noteq> selected"
    by (simp add: buttonClass_def)
next
  fix i
  assume free: "\<not> sublist ''selected'' ident" and i: "i < nat count"
  show "sublist ''selected'' (renderButtons ident count selected ! i) \<longleftrightarrow> int i = selected"
    using i by (simp add: renderButtons_def selected_in_button [OF free])
qed

theorem button_group_marks_selected_witness:
  "(0::int) \<le> 3 \<and> (1::nat) < nat 3 \<and> \<not> sublist ''selected'' ''face''
   \<and> int (length (renderButtons ''face'' 3 1)) = 3
   \<and> renderButtons ''face'' 3 1 ! 1
       = ''<button type='' @ quoted ''button'' @ '' data-value='' @ quoted ''1''
           @ '' class='' @ quoted ''preview-btn selected''
           @ '' data-group='' @ quoted ''face'' @ ''>1</button>''
   \<and> sublist ''selected'' (renderButtons ''face'' 3 1 ! 1)
   \<and> length (filter (sublist ''selected'') (renderButtons ''face'' 3 1)) = 1"
proof -
  note t = button_group_marks_selected [of "''face''" 3 1]
  have c: "(0::int) \<le> 3" and i: "(1::nat) < nat 3"
    by simp_all
  have free: "\<not> sublist ''selected'' ''face''"
    by (simp add: sublist_Cons_right)
  have n1: "nat_to_string (Suc 0) = ''1''"
    by (simp add: nat_to_string.simps)
  have len: "int (length (renderButtons ''face'' 3 1)) = 3"
    using t [THEN conjunct2, THEN conjunct2, THEN conjunct1] c by blast
  have "renderButtons ''face'' 3 1 ! 1
       = ''<button type='' @ quoted ''button'' @ '' data-value='' @ quoted (nat_to_string 1)
           @ '' class='' @ quoted (buttonClass 1 1)
           @ '' data-group='' @ quoted ''face'' @ ''>'' @ nat_to_string 1 @ ''</button>''"
    using t [THEN conjunct2, THEN conjunct2, THEN conjunct2, THEN conjunct1] i by blast
  then have b: "renderButtons ''face'' 3 1 ! 1
       = ''<button type='' @ quoted ''button'' @ '' data-value='' @ quoted ''1''
           @ '' class='' @ quoted ''preview-btn selected''
           @ '' data-group='' @ quoted ''face'' @ ''>1</button>''"
    by (simp add: n1 buttonClass_def)
  note u = t [THEN conjunct2, THEN conjunct2, THEN conjunct2, THEN conjunct2, THEN conjunct2,
      THEN mp, OF free]
  have s: "sublist ''selected'' (renderButtons ''face'' 3 1 ! 1)"
    using u [THEN conjunct1] i by simp
  have n: "length (filter (sublist ''selected'') (renderButtons ''face'' 3 1)) = 1"
    using u [THEN conjunct2] by simp
  show ?thesis
    using c i free len b s n by blast
qed

section \<open>Exposure and tonemapping: \<^verbatim>\<open>adjustExposure\<close>\<close>

text \<open>
  Exposure is a number of stops and the multiplier is \<^verbatim>\<open>Math.pow(2, exposure)\<close>. Both are
  modelled as real numbers: the rounding of double-precision arithmetic is left out.
\<close>

definition math_pow2 :: "real \<Rightarrow> real" where
  "math_pow2 exposure = 2 powr exposure"

text \<open>
  The string value of a number inside a template. An integral value of magnitude up to
  \<open>2^53\<close> is written as its decimal numeral. Any other value is written with the
  shortest digits that read back as the same double (padded with zeros when it is a
  larger integer, so that \<open>2^55\<close> is written \<^verbatim>\<open>36028797018963970\<close>); how that comes
  out is the parameter \<open>fmt\<close>.
\<close>

definition number_to_string :: "(real \<Rightarrow> string) \<Rightarrow> real \<Rightarrow> string" where
  "number_to_string fmt x =
     (if of_int \<lfloor>x\<rfloor> = x \<and> \<bar>x\<bar> \<le> 2 ^ 53 then int_to_string \<lfloor>x\<rfloor> else fmt x)"

text \<open>
  The command line that \<open>adjustExposure\<close> hands to \<^verbatim>\<open>runCommand\<close> (lines 193 to 208).
\<close>

definition adjustExposureCmd ::
  "(real \<Rightarrow> string) \<Rightarrow> string \<Rightarrow> string \<Rightarrow> real \<Rightarrow> string \<Rightarrow> string \<Rightarrow> string" where
  "adjustExposureCmd fmt inputPath outputPath exposure display view =
     (let exposureVal = math_pow2 exposure
      in if view = ''No Tonemapping''
         then ''oiiotool '' @ quoted inputPath
                @ '' --mulc '' @ number_to_string fmt exposureVal
                @ '' --colorconvert lin_rec709 sRGB -o '' @ quoted outputPath
         else ''oiiotool '' @ quoted inputPath
                @ '' --mulc '' @ number_to_string fmt exposureVal
                @ '' --ociodisplay '' @ quoted display @ '' '' @ quoted view
                @ '' -o '' @ quoted outputPath)"

text \<open>
  \<open>adjustExposure\<close> runs that one command and passes its failure on. The removal of a
  leftover \<^verbatim>\<open>_hdr.exr\<close> file in the \<^verbatim>\<open>finally\<close> block touches the file system only
  and is not modelled.
\<close>

definition adjustExposure ::
  "(real \<Rightarrow> string) \<Rightarrow> (string \<Rightarrow> error + unit) \<Rightarrow> string \<Rightarrow> string \<Rightarrow> real
     \<Rightarrow> string \<Rightarrow> string \<Rightarrow> error + unit" where
  "adjustExposure fmt runCommand inputPath outputPath exposure display view =
     runCommand (adjustExposureCmd fmt inputPath outputPath exposure display view)"

section \<open>The colour display catalogue\<close>

record color_view =
  view_name :: string
  view_isDefault :: bool

record color_display =
  name :: string
  isDefault :: bool
  views :: "color_view list"

text \<open>
  \<^verbatim>\<open>xs.find(p) || xs[0]\<close>: the first element that satisfies \<open>p\<close>, else the first
  element, else \<^verbatim>\<open>undefined\<close> (\<open>None\<close>).
\<close>

definition find_or_first :: "('a \<Rightarrow> bool) \<Rightarrow> 'a list \<Rightarrow> 'a option" where
  "find_or_first p xs =
     (case find p xs of Some x \<Rightarrow> Some x
      | None \<Rightarrow> (case xs of [] \<Rightarrow> None | x # _ \<Rightarrow> Some x))"

text \<open>\<^verbatim>\<open>s || fallback\<close> for a string that may be undefined: the empty string is falsy.\<close>

definition string_or :: "string option \<Rightarrow> string \<Rightarrow> string" where
  "string_or s fallback = (case s of None \<Rightarrow> fallback | Some t \<Rightarrow> if t = [] then fallback else t)"

text \<open>
  The first tonemapping command for an \<^verbatim>\<open>.exr\<close> or \<^verbatim>\<open>.hdr\<close> file
  (\<open>resolveCustomEditor\<close>, lines 283 to 293): exposure \<open>0\<close> and the default display and
  view of the catalogue.
\<close>

definition initialPreviewCmd ::
  "(real \<Rightarrow> string) \<Rightarrow> color_display list \<Rightarrow> string \<Rightarrow> string \<Rightarrow> string" where
  "initialPreviewCmd fmt colorDisplays fsPath previewPath =
     (let defaultDisplay = find_or_first isDefault colorDisplays;
          defaultView = (case defaultDisplay of None \<Rightarrow> None
                         | Some d \<Rightarrow> find_or_first view_isDefault (views d))
      in adjustExposureCmd fmt fsPath previewPath 0
           (string_or (map_option name defaultDisplay) ''sRGB - Display'')
           (string_or (map_option view_name defaultView) ''ACES 1.0 - SDR Video''))"

lemma number_to_string_1 [simp]: "number_to_string fmt 1 = ''1''"
  by (simp add: number_to_string_def int_to_string_def nat_to_string.simps)

lemma math_pow2_0 [simp]: "math_pow2 0 = 1"
  by (simp add: math_pow2_def)

lemma adjustExposureCmd_plain:
  "adjustExposureCmd fmt i p ev d ''No Tonemapping''
     = ''oiiotool '' @ quoted i @ '' --mulc '' @ number_to_string fmt (math_pow2 ev)
         @ '' --colorconvert lin_rec709 sRGB -o '' @ quoted p"
  by (simp add: adjustExposureCmd_def Let_def)

lemma adjustExposureCmd_ocio:
  "v \<noteq> ''No Tonemapping'' \<Longrightarrow>
   adjustExposureCmd fmt i p ev d v
     = ''oiiotool '' @ quoted i @ '' --mulc '' @ number_to_string fmt (math_pow2 ev)
         @ '' --ociodisplay '' @ quoted d @ '' '' @ quoted v @ '' -o '' @ quoted p"
  by (simp add: adjustExposureCmd_def Let_def)

lemma plain_no_ociodisplay:
  assumes "\<not> sublist ''--ociodisplay'' i" "\<not> sublist ''--ociodisplay'' p"
    "\<not> sublist ''--ociodisplay'' n"
  shows "\<not> sublist ''--ociodisplay''
     (''oiiotool '' @ quoted i @ '' --mulc '' @ n
         @ '' --colorconvert lin_rec709 sRGB -o '' @ quoted p)"
  using assms by (simp add: quoted_def dquote_def sublist_Cons_right sublist_split_at)

lemma ocio_no_colorconvert:
  assumes "\<not> sublist ''--colorconvert'' i" "\<not> sublist ''--colorconvert'' p"
    "\<not> sublist ''--colorconvert'' n" "\<not> sublist ''--colorconvert'' d"
    "\<not> sublist ''--colorconvert'' v"
  shows "\<not> sublist ''--colorconvert''
     (''oiiotool '' @ quoted i @ '' --mulc '' @ n
         @ '' --ociodisplay '' @ quoted d @ '' '' @ quoted v @ '' -o '' @ quoted p)"
  using assms by (simp add: quoted_def dquote_def sublist_Cons_right sublist_split_at)

lemma plain_has_colorconvert:
  "sublist ''--colorconvert lin_rec709 sRGB''
     (''oiiotool '' @ quoted i @ '' --mulc '' @ n
         @ '' --colorconvert lin_rec709 sRGB -o '' @ quoted p)"
proof -
  have "''oiiotool '' @ quoted i @ '' --mulc '' @ n
         @ '' --colorconvert lin_rec709 sRGB -o '' @ quoted p
      = (''oiiotool '' @ quoted i @ '' --mulc '' @ n @ '' '')
         @ ''--colorconvert lin_rec709 sRGB'' @ ('' -o '' @ quoted p)"
    by simp
  then show ?thesis
    by (simp only: sublist_appendI)
qed

lemma ocio_has_ociodisplay:
  "sublist (''--ociodisplay '' @ quoted d @ '' '' @ quoted v)
     (''oiiotool '' @ quoted i @ '' --mulc '' @ n
         @ '' --ociodisplay '' @ quoted d @ '' '' @ quoted v @ '' -o '' @ quoted p)"
proof -
  have "''oiiotool '' @ quoted i @ '' --mulc '' @ n
         @ '' --ociodisplay '' @ quoted d @ '' '' @ quoted v @ '' -o '' @ quoted p
      = (''oiiotool '' @ quoted i @ '' --mulc '' @ n @ '' '')
         @ (''--ociodisplay '' @ quoted d @ '' '' @ quoted v) @ ('' -o '' @ quoted p)"
    by simp
  then show ?thesis
    by (simp only: sublist_appendI)
qed

lemma has_mulc:
  "sublist ('' --mulc '' @ n) (''oiiotool '' @ quoted i @ '' --mulc '' @ n @ rest)"
proof -
  have "''oiiotool '' @ quoted i @ '' --mulc '' @ n @ rest
      = (''oiiotool '' @ quoted i) @ ('' --mulc '' @ n) @ rest"
    by simp
  then show ?thesis
    by (simp only: sublist_appendI)
qed

text \<open>
  Claim C5. For every input path, output path, exposure and display: with the view
  \<^verbatim>\<open>No Tonemapping\<close> the command of \<open>adjustExposure\<close> is
  \<^verbatim>\<open>oiiotool "<in>" --mulc <m> --colorconvert lin_rec709 sRGB -o "<out>"\<close>, which has no
  \<^verbatim>\<open>--ociodisplay\<close>; with any other view it is
  \<^verbatim>\<open>oiiotool "<in>" --mulc <m> --ociodisplay "<display>" "<view>" -o "<out>"\<close>, which
  has no \<^verbatim>\<open>--colorconvert\<close>. (The whole line is free of the other flag unless a path,
  a name or the printed multiplier spells it.) Both carry \<^verbatim>\<open>--mulc <m>\<close> with \<open>m\<close> the
  exposure multiplier.
\<close>

theorem no_tonemapping_skips_display_transform:
  "adjustExposure fmt runCommand inputPath outputPath exposure display view
     = runCommand (adjustExposureCmd fmt inputPath outputPath exposure display view)
   \<and> sublist ('' --mulc '' @ number_to_string fmt (math_pow2 exposure))
        (adjustExposureCmd fmt inputPath outputPath exposure display view)
   \<and> (view = ''No Tonemapping'' \<longrightarrow>
        adjustExposureCmd fmt inputPath outputPath exposure display view
          = ''oiiotool '' @ quoted inputPath
              @ '' --mulc '' @ number_to_string fmt (math_pow2 exposure)
              @ '' --colorconvert lin_rec709 sRGB -o '' @ quoted outputPath
        \<and> sublist ''--colorconvert lin_rec709 sRGB''
             (adjustExposureCmd fmt inputPath outputPath exposure display view)
        \<and> (\<not> sublist ''--ociodisplay'' inputPath \<and> \<not> sublist ''--ociodisplay'' outputPath
             \<and> \<not> sublist ''--ociodisplay'' (number_to_string fmt (math_pow2 exposure))
            \<longrightarrow> \<not> sublist ''--ociodisplay''
                  (adjustExposureCmd fmt inputPath outputPath exposure display view)))
   \<and> (view \<noteq> ''No Tonemapping'' \<longrightarrow>
        adjustExposureCmd fmt inputPath outputPath exposure display view
          = ''oiiotool '' @ quoted inputPath
              @ '' --mulc '' @ number_to_string fmt (math_pow2 exposure)
              @ '' --ociodisplay '' @ quoted display @ '' '' @ quoted view
              @ '' -o '' @ quoted outputPath
        \<and> sublist (''--ociodisplay '' @ quoted display @ '' '' @ quoted view)
             (adjustExposureCmd fmt inputPath outputPath exposure display view)
        \<and> (\<not> sublist ''--colorconvert'' inputPath \<and> \<not> sublist ''--colorconvert'' outputPath
             \<and> \<not> sublist ''--colorconvert'' (number_to_string fmt (math_pow2 exposure))
             \<and> \<not> sublist ''--colorconvert'' display \<and> \<not> sublist ''--colorconvert'' view
            \<longrightarrow> \<not> sublist ''--colorconvert''
                  (adjustExposureCmd fmt inputPath outputPath exposure display view)))"
proof (intro conjI impI)
  show "adjustExposure fmt runCommand inputPath outputPath exposure display view
     = runCommand (adjustExposureCmd fmt inputPath outputPath exposure display view)"
    by (simp add: adjustExposure_def)
  show "sublist ('' --mulc '' @ number_to_string fmt (math_pow2 exposure))
        (adjustExposureCmd fmt inputPath outputPath exposure display view)"
  proof (cases "view = ''No Tonemapping''")
    case True
    show ?thesis
      unfolding True adjustExposureCmd_plain by (rule has_mulc)
  next
    case False
    show ?thesis
      unfolding adjustExposureCmd_ocio [OF False] by (rule has_mulc)
  qed
next
  assume v: "view = ''No Tonemapping''"
  show "adjustExposureCmd fmt inputPath outputPath exposure display view
          = ''oiiotool '' @ quoted inputPath
              @ '' --mulc '' @ number_to_string fmt (math_pow2 exposure)
              @ '' --colorconvert lin_rec709 sRGB -o '' @ quoted outputPath"
    unfolding v by (rule adjustExposureCmd_plain)
  show "sublist ''--colorconvert lin_rec709 sRGB''
             (adjustExposureCmd fmt inputPath outputPath exposure display view)"
    unfolding v adjustExposureCmd_plain by (rule plain_has_colorconvert)
  assume "\<not> sublist ''--ociodisplay'' inputPath \<and> \<not> sublist ''--ociodisplay'' outputPath
             \<and> \<not> sublist ''--ociodisplay'' (number_to_string fmt (math_pow2 exposure))"
  then show "\<not> sublist ''--ociodisplay''
                  (adjustExposureCmd fmt inputPath outputPath exposure display view)"
    unfolding v adjustExposureCmd_plain by (intro plain_no_ociodisplay) simp_all
next
  assume v: "view \<noteq> ''No Tonemapping''"
  show "adjustExposureCmd fmt inputPath outputPath exposure display view
          = ''oiiotool '' @ quoted inputPath
              @ '' --mulc '' @ number_to_string fmt (math_pow2 exposure)
              @ '' --ociodisplay '' @ quoted display @ '' '' @ quoted view
              @ '' -o '' @ quoted outputPath"
    using v by (rule adjustExposureCmd_ocio)
  show "sublist (''--ociodisplay '' @ quoted display @ '' '' @ quoted view)
             (adjustExposureCmd fmt inputPath outputPath exposure display view)"
    unfolding adjustExposureCmd_ocio [OF v] by (rule ocio_has_ociodisplay)
  assume "\<not> sublist ''--colorconvert'' inputPath \<and> \<not> sublist ''--colorconvert'' outputPath
             \<and> \<not> sublist ''--colorconvert'' (number_to_string fmt (math_pow2 exposure))
             \<and> \<not> sublist ''--colorconvert'' display \<and> \<not> sublist ''--colorconvert'' view"
  then show "\<not> sublist ''--colorconvert''
                  (adjustExposureCmd fmt inputPath outputPath exposure display view)"
    unfolding adjustExposureCmd_ocio [OF v] by (intro ocio_no_colorconvert) simp_all
qed

text \<open>
  For the examples: a number format that is never consulted (the multipliers below are
  integral), and a \<^verbatim>\<open>runCommand\<close> that succeeds.
\<close>

definition fmt_unused :: "real \<Rightarrow> string" where
  "fmt_unused x = ''NaN''"

definition run_ok :: "string \<Rightarrow> error + unit" where
  "run_ok cmd = Inr ()"

theorem no_tonemapping_skips_display_transform_witness:
  "\<not> sublist ''--ociodisplay'' ''a.exr'' \<and> \<not> sublist ''--ociodisplay'' ''/tmp/p.png''
   \<and> \<not> sublist ''--ociodisplay'' (number_to_string fmt_unused (math_pow2 1))
   \<and> adjustExposureCmd fmt_unused ''a.exr'' ''/tmp/p.png'' 1 ''sRGB - Display'' ''No Tonemapping''
       = ''oiiotool '' @ quoted ''a.exr'' @ '' --mulc 2 --colorconvert lin_rec709 sRGB -o ''
           @ quoted ''/tmp/p.png''
   \<and> \<not> sublist ''--ociodisplay''
        (adjustExposureCmd fmt_unused ''a.exr'' ''/tmp/p.png'' 1 ''sRGB - Display'' ''No Tonemapping'')
   \<and> ''ACES 1.0 - SDR Video'' \<noteq> ''No Tonemapping''
   \<and> \<not> sublist ''--colorconvert'' ''a.exr'' \<and> \<not> sublist ''--colorconvert'' ''/tmp/p.png''
   \<and> \<not> sublist ''--colorconvert'' (number_to_string fmt_unused (math_pow2 1))
   \<and> \<not> sublist ''--colorconvert'' ''sRGB - Display''
   \<and> \<not> sublist ''--colorconvert'' ''ACES 1.0 - SDR Video''
   \<and> adjustExposureCmd fmt_unused ''a.exr'' ''/tmp/p.png'' 1 ''sRGB - Display'' ''ACES 1.0 - SDR Video''
       = ''oiiotool '' @ quoted ''a.exr'' @ '' --mulc 2 --ociodisplay '' @ quoted ''sRGB - Display''
           @ '' '' @ quoted ''ACES 1.0 - SDR Video'' @ '' -o '' @ quoted ''/tmp/p.png''
   \<and> \<not> sublist ''--colorconvert''
        (adjustExposureCmd fmt_unused ''a.exr'' ''/tmp/p.png'' 1 ''sRGB - Display''
           ''ACES 1.0 - SDR Video'')"
proof -
  have m: "number_to_string fmt_unused (math_pow2 1) = ''2''"
    by (simp add: math_pow2_def number_to_string_def int_to_string_def nat_to_string.simps)
  have o: "\<not> sublist ''--ociodisplay'' ''a.exr''" "\<not> sublist ''--ociodisplay'' ''/tmp/p.png''"
      "\<not> sublist ''--ociodisplay'' (number_to_string fmt_unused (math_pow2 1))"
    unfolding m by (simp_all add: sublist_Cons_right)
  have c: "\<not> sublist ''--colorconvert'' ''a.exr''" "\<not> sublist ''--colorconvert'' ''/tmp/p.png''"
      "\<not> sublist ''--colorconvert'' (number_to_string fmt_unused (math_pow2 1))"
      "\<not> sublist ''--colorconvert'' ''sRGB - Display''"
      "\<not> sublist ''--colorconvert'' ''ACES 1.0 - SDR Video''"
    unfolding m by (simp_all add: sublist_Cons_right)
  have v: "''ACES 1.0 - SDR Video'' \<noteq> ''No Tonemapping''"
    by simp
  note a = no_tonemapping_skips_display_transform [of fmt_unused run_ok "''a.exr''"
      "''/tmp/p.png''" 1 "''sRGB - Display''" "''No Tonemapping''",
      THEN conjunct2, THEN conjunct2, THEN conjunct1, THEN mp, OF refl]
  note b = no_tonemapping_skips_display_transform [of fmt_unused run_ok "''a.exr''"
      "''/tmp/p.png''" 1 "''sRGB - Display''" "''ACES 1.0 - SDR Video''",
      THEN conjunct2, THEN conjunct2, THEN conjunct2, THEN mp, OF v]
  have a1: "adjustExposureCmd fmt_unused ''a.exr'' ''/tmp/p.png'' 1 ''sRGB - Display'' ''No Tonemapping''
       = ''oiiotool '' @ quoted ''a.exr'' @ '' --mulc 2 --colorconvert lin_rec709 sRGB -o ''
           @ quoted ''/tmp/p.png''"
    using a [THEN conjunct1] by (simp add: m)
  have a2: "\<not> sublist ''--ociodisplay''
        (adjustExposureCmd fmt_unused ''a.exr'' ''/tmp/p.png'' 1 ''sRGB - Display'' ''No Tonemapping'')"
    using a [THEN conjunct2, THEN conjunct2] o by blast
  have b1: "adjustExposureCmd fmt_unused ''a.exr'' ''/tmp/p.png'' 1 ''sRGB - Display'' ''ACES 1.0 - SDR Video''
       = ''oiiotool '' @ quoted ''a.exr'' @ '' --mulc 2 --ociodisplay '' @ quoted ''sRGB - Display''
           @ '' '' @ quoted ''ACES 1.0 - SDR Video'' @ '' -o '' @ quoted ''/tmp/p.png''"
    using b [THEN conjunct1] by (simp add: m)
  have b2: "\<not> sublist ''--colorconvert''
        (adjustExposureCmd fmt_unused ''a.exr'' ''/tmp/p.png'' 1 ''sRGB - Display''
           ''ACES 1.0 - SDR Video'')"
    using b [THEN conjunct2, THEN conjunct2] c by blast
  show ?thesis
    using o a1 a2 v c b1 b2 by blast
qed


lemma math_pow2_nat: "math_pow2 (real n) = 2 ^ n"
  by (simp add: math_pow2_def powr_realpow)


text \<open>Beyond \<open>2^53\<close> the digits are those of \<open>fmt\<close>, for instance at \<open>55\<close> stops.\<close>

lemma number_to_string_large: "number_to_string fmt (math_pow2 55) = fmt (2 ^ 55)"
proof -
  have "math_pow2 55 = 2 ^ 55"
    using math_pow2_nat [of 55] by simp
  moreover have "\<not> \<bar>(2::real) ^ 55\<bar> \<le> 2 ^ 53"
    by simp
  ultimately show ?thesis
    by (simp only: number_to_string_def simp_thms if_False)
qed



section \<open>KTX2 metadata: \<^verbatim>\<open>getKtx2Info\<close>\<close>

text \<open>
  The value that \<^verbatim>\<open>JSON.parse\<close> returns. An object keeps its members in order.
\<close>

datatype json =
    JNull
  | JBool bool
  | JNumber real
  | JString string
  | JArray "json list"
  | JObject "(string \<times> json) list"

text \<open>Property access \<^verbatim>\<open>value.key\<close>; \<open>None\<close> is \<^verbatim>\<open>undefined\<close>.\<close>

fun member :: "json \<Rightarrow> string \<Rightarrow> json option" where
  "member (JObject kvs) k = map_of kvs k"
| "member _ k = None"

text \<open>The two command lines of the metadata query (lines 564 and 568).\<close>

definition infoCmd :: "string \<Rightarrow> string" where
  "infoCmd filePath = ''ktx info --format json '' @ quoted filePath"

definition infoFallbackCmd :: "string \<Rightarrow> string" where
  "infoFallbackCmd filePath =
     ''ktx info --format json --format-json:validate=false '' @ quoted filePath"

text \<open>
  The promise \<^verbatim>\<open>infoJson\<close>: the output of the first command, or when that fails the
  output of the second, or when that fails too the second error.
\<close>

definition infoJson :: "shell \<Rightarrow> string list \<Rightarrow> string \<Rightarrow> string list \<times> (error + string)" where
  "infoJson exec hist filePath =
     (case exec hist (infoCmd filePath) of
        Inr stdout \<Rightarrow> (hist @ [infoCmd filePath], Inr stdout)
      | Inl err \<Rightarrow>
          (case exec (hist @ [infoCmd filePath]) (infoFallbackCmd filePath) of
             Inl fallbackError \<Rightarrow>
               (hist @ [infoCmd filePath, infoFallbackCmd filePath], Inl fallbackError)
           | Inr fallbackStdout \<Rightarrow>
               (hist @ [infoCmd filePath, infoFallbackCmd filePath], Inr fallbackStdout)))"

text \<open>
  \<^verbatim>\<open>infoJson.match(/\{[\s\S]*\}/)\<close>: the match starts at the first opening brace and, the
  star being greedy over every character, ends at the last closing brace of the output;
  there is none when no closing brace follows the first opening one.
\<close>

definition braceMatch :: "string \<Rightarrow> string option" where
  "braceMatch stdout =
     (case dropWhile (\<lambda>c. c \<noteq> CHR ''{'') stdout of
        [] \<Rightarrow> None
      | c # rest \<Rightarrow>
          (case rev (dropWhile (\<lambda>c. c \<noteq> CHR ''}'') (rev rest)) of
             [] \<Rightarrow> None
           | body \<Rightarrow> Some (c # body)))"

text \<open>
  The body of the outer \<^verbatim>\<open>try\<close>. \<^verbatim>\<open>JSON.parse\<close> is the parameter \<open>parse\<close>, with
  \<open>None\<close> for a thrown \<^verbatim>\<open>SyntaxError\<close>.
\<close>

definition getKtx2Info_try ::
  "shell \<Rightarrow> (string \<Rightarrow> json option) \<Rightarrow> string list \<Rightarrow> string
     \<Rightarrow> string list \<times> (error + json)" where
  "getKtx2Info_try exec parse hist filePath =
     (case infoJson exec hist filePath of
        (hist', Inl err) \<Rightarrow> (hist', Inl err)
      | (hist', Inr stdout) \<Rightarrow>
          (case parse stdout of
             Some v \<Rightarrow> (hist', Inr v)
           | None \<Rightarrow>
               (case braceMatch stdout of
                  Some jsonMatch \<Rightarrow>
                    (case parse jsonMatch of
                       Some v \<Rightarrow> (hist', Inr v)
                     | None \<Rightarrow> (hist', Inl SyntaxError))
                | None \<Rightarrow> (hist', Inl SyntaxError))))"

text \<open>The minimal info object of the outer \<^verbatim>\<open>catch\<close> (lines 595 to 606).\<close>

definition minimalInfo :: json where
  "minimalInfo =
     JObject
       [(''header'',
           JObject
             [(''pixelWidth'', JNumber 0),
              (''pixelHeight'', JNumber 0),
              (''layerCount'', JNumber 1),
              (''faceCount'', JNumber 1),
              (''pixelDepth'', JNumber 1),
              (''levelCount'', JNumber 1),
              (''vkFormat'', JString ''Unknown'')]),
        (''index'', JObject [(''levels'', JArray [JObject []])])]"

definition getKtx2Info ::
  "shell \<Rightarrow> (string \<Rightarrow> json option) \<Rightarrow> string list \<Rightarrow> string
     \<Rightarrow> string list \<times> (error + json)" where
  "getKtx2Info exec parse hist filePath =
     (case getKtx2Info_try exec parse hist filePath of
        (hist', Inl err) \<Rightarrow> (hist', Inr minimalInfo)
      | (hist', Inr v) \<Rightarrow> (hist', Inr v))"

text \<open>\<^verbatim>\<open>info.header.key\<close> of an info object.\<close>

definition headerField :: "json \<Rightarrow> string \<Rightarrow> json option" where
  "headerField info k = (case member info ''header'' of None \<Rightarrow> None | Some h \<Rightarrow> member h k)"

lemma braceMatch_ex1: "braceMatch ''warning: x {} y'' = Some ''{}''"
  by (simp add: braceMatch_def)
lemma braceMatch_ex2: "braceMatch ''a{b{c}d}e}f{'' = Some ''{b{c}d}e}''"
  by (simp add: braceMatch_def)
lemma braceMatch_ex3: "braceMatch ''}{'' = None"
  by (simp add: braceMatch_def)

lemma minimalInfo_counts:
  "headerField minimalInfo ''levelCount'' = Some (JNumber 1)"
  "headerField minimalInfo ''layerCount'' = Some (JNumber 1)"
  "headerField minimalInfo ''faceCount'' = Some (JNumber 1)"
  "headerField minimalInfo ''pixelDepth'' = Some (JNumber 1)"
  by (simp_all add: headerField_def minimalInfo_def)

lemma getKtx2Info_returns: "\<exists>v. snd (getKtx2Info exec parse hist filePath) = Inr v"
  by (simp add: getKtx2Info_def split: prod.splits sum.splits)

lemma getKtx2Info_exec_failure:
  assumes "exec hist (infoCmd filePath) = Inl e1"
    and "exec (hist @ [infoCmd filePath]) (infoFallbackCmd filePath) = Inl e2"
  shows "snd (getKtx2Info exec parse hist filePath) = Inr minimalInfo"
  using assms by (simp add: getKtx2Info_def getKtx2Info_try_def infoJson_def)

lemma getKtx2Info_parse_failure:
  assumes "snd (infoJson exec hist filePath) = Inr stdout"
    and "parse stdout = None"
    and "\<forall>m. braceMatch stdout = Some m \<longrightarrow> parse m = None"
  shows "snd (getKtx2Info exec parse hist filePath) = Inr minimalInfo"
proof (cases "infoJson exec hist filePath")
  case (Pair h r)
  with assms(1) have r: "r = Inr stdout" by simp
  show ?thesis
  proof (cases "braceMatch stdout")
    case None
    then show ?thesis
      using Pair r assms(2) by (simp add: getKtx2Info_def getKtx2Info_try_def)
  next
    case (Some m)
    with assms(3) have "parse m = None" by simp
    then show ?thesis
      using Pair r assms(2) Some by (simp add: getKtx2Info_def getKtx2Info_try_def)
  qed
qed

text \<open>
  Claim C3. \<open>getKtx2Info\<close> never throws: it always returns a value. When both the
  \<^verbatim>\<open>ktx info\<close> command and its fallback variant fail, and when the output obtained
  cannot be parsed as JSON, neither as a whole nor cut down to its brace-delimited part,
  the value is the minimal info object, whose header has \<open>levelCount = 1\<close>,
  \<open>layerCount = 1\<close>, \<open>faceCount = 1\<close> and \<open>pixelDepth = 1\<close>.
\<close>

theorem getKtx2Info_never_throws:
  "(\<exists>v. snd (getKtx2Info exec parse hist filePath) = Inr v)
   \<and> (\<forall>e1 e2. exec hist (infoCmd filePath) = Inl e1
          \<and> exec (hist @ [infoCmd filePath]) (infoFallbackCmd filePath) = Inl e2
        \<longrightarrow> snd (getKtx2Info exec parse hist filePath) = Inr minimalInfo)
   \<and> (\<forall>stdout. snd (infoJson exec hist filePath) = Inr stdout
          \<and> parse stdout = None
          \<and> (\<forall>m. braceMatch stdout = Some m \<longrightarrow> parse m = None)
        \<longrightarrow> snd (getKtx2Info exec parse hist filePath) = Inr minimalInfo)
   \<and> headerField minimalInfo ''levelCount'' = Some (JNumber 1)
   \<and> headerField minimalInfo ''layerCount'' = Some (JNumber 1)
   \<and> headerField minimalInfo ''faceCount'' = Some (JNumber 1)
   \<and> headerField minimalInfo ''pixelDepth'' = Some (JNumber 1)"
proof (intro conjI allI impI)
  show "\<exists>v. snd (getKtx2Info exec parse hist filePath) = Inr v"
    by (rule getKtx2Info_returns)
next
  fix e1 e2
  assume "exec hist (infoCmd filePath) = Inl e1
          \<and> exec (hist @ [infoCmd filePath]) (infoFallbackCmd filePath) = Inl e2"
  then show "snd (getKtx2Info exec parse hist filePath) = Inr minimalInfo"
    using getKtx2Info_exec_failure by blast
next
  fix stdout
  assume "snd (infoJson exec hist filePath) = Inr stdout
          \<and> parse stdout = None
          \<and> (\<forall>m. braceMatch stdout = Some m \<longrightarrow> parse m = None)"
  then show "snd (getKtx2Info exec parse hist filePath) = Inr minimalInfo"
    using getKtx2Info_parse_failure by blast
qed (rule minimalInfo_counts)+

text \<open>
  A world in which the metadata query prints a validation message with half an object,
  and a \<^verbatim>\<open>JSON.parse\<close> that accepts nothing.
\<close>

definition prints_garbage :: shell where
  "prints_garbage hist cmd = Inr ''error: {oops''"

definition parse_rejects :: "string \<Rightarrow> json option" where
  "parse_rejects stdout = None"

theorem getKtx2Info_never_throws_witness:
  "all_fail [] (infoCmd ''a.ktx2'') = Inl (ExecError ''invalid'')
   \<and> all_fail ([] @ [infoCmd ''a.ktx2'']) (infoFallbackCmd ''a.ktx2'') = Inl (ExecError ''invalid'')
   \<and> snd (getKtx2Info all_fail parse_rejects [] ''a.ktx2'') = Inr minimalInfo
   \<and> snd (infoJson prints_garbage [] ''a.ktx2'') = Inr ''error: {oops''
   \<and> parse_rejects ''error: {oops'' = None
   \<and> braceMatch ''error: {oops'' = None
   \<and> snd (getKtx2Info prints_garbage parse_rejects [] ''a.ktx2'') = Inr minimalInfo"
proof -
  have f1: "all_fail [] (infoCmd ''a.ktx2'') = Inl (ExecError ''invalid'')"
    and f2: "all_fail ([] @ [infoCmd ''a.ktx2'']) (infoFallbackCmd ''a.ktx2'')
               = Inl (ExecError ''invalid'')"
    by (simp_all add: all_fail_def)
  have g: "snd (infoJson prints_garbage [] ''a.ktx2'') = Inr ''error: {oops''"
    by (simp add: infoJson_def prints_garbage_def)
  have p: "parse_rejects ''error: {oops'' = None"
    by (simp add: parse_rejects_def)
  have n: "braceMatch ''error: {oops'' = None"
    by (simp add: braceMatch_def)
  then have m: "\<forall>m. braceMatch ''error: {oops'' = Some m \<longrightarrow> parse_rejects m = None"
    by simp
  have a: "snd (getKtx2Info all_fail parse_rejects [] ''a.ktx2'') = Inr minimalInfo"
    using getKtx2Info_never_throws [of all_fail parse_rejects "[]" "''a.ktx2''"] f1 f2
    by blast
  have b: "snd (getKtx2Info prints_garbage parse_rejects [] ''a.ktx2'') = Inr minimalInfo"
    using getKtx2Info_never_throws [of prints_garbage parse_rejects "[]" "''a.ktx2''"] g p m
    by blast
  show ?thesis
    using f1 f2 a g p n b by blast
qed

section \<open>Colour configuration: \<^verbatim>\<open>parseColorConfigInfo\<close> and \<^verbatim>\<open>getColorConfigInfo\<close>\<close>

subsection \<open>String operations of the host language\<close>

text \<open>
  \<^verbatim>\<open>s.split(sep)\<close> for a separator that is not empty (the only use made of it): the
  pieces of \<open>s\<close> between the occurrences of \<open>sep\<close>, found from left to right without
  overlap.
\<close>

fun splitOn :: "string \<Rightarrow> string \<Rightarrow> string list" where
  "splitOn sep [] = [[]]"
| "splitOn sep (c # cs) =
     (if sep \<noteq> [] \<and> prefix sep (c # cs)
      then [] # splitOn sep (drop (length sep - 1) cs)
      else (case splitOn sep cs of [] \<Rightarrow> [[c]] | p # ps \<Rightarrow> (c # p) # ps))"

text \<open>\<^verbatim>\<open>xs[i]\<close> of an array: \<^verbatim>\<open>undefined\<close> (\<open>None\<close>) out of range.\<close>

definition at_index :: "'a list \<Rightarrow> nat \<Rightarrow> 'a option" where
  "at_index xs i = (if i < length xs then Some (xs ! i) else None)"

subsection \<open>The regular expressions\<close>

text \<open>
  Each regular expression of the parser is a sequence of literals, of greedy repetitions
  of a character class and of one optional literal. A matcher takes the text at the
  position tried and returns what it captured with the text left after the match, or
  \<open>None\<close> when there is no match at that position.

  \<open>lit p\<close> matches the literal \<open>p\<close>. \<open>many1 cls\<close> is \<^verbatim>\<open>[cls]+\<close>: it takes the longest
  run of characters of the class, which must not be empty. In every use below the
  repetition is followed by a literal whose first character is outside the class (or by
  \<^verbatim>\<open>$\<close>), so giving back characters can never help and the longest run is the only
  candidate. \<open>opt_lit p\<close> is \<^verbatim>\<open>(p)?\<close>: it takes \<open>p\<close> when it is there. Where it is
  used, what follows cannot start the way \<open>p\<close> does, so skipping a \<open>p\<close> that is there
  can never help either.
\<close>

definition lit :: "string \<Rightarrow> string \<Rightarrow> string option" where
  "lit p s = (if prefix p s then Some (drop (length p) s) else None)"

definition many1 :: "(char \<Rightarrow> bool) \<Rightarrow> string \<Rightarrow> (string \<times> string) option" where
  "many1 cls s =
     (case takeWhile cls s of [] \<Rightarrow> None | c # run \<Rightarrow> Some (c # run, dropWhile cls s))"

definition opt_lit :: "string \<Rightarrow> string \<Rightarrow> bool \<times> string" where
  "opt_lit p s = (case lit p s of Some rest \<Rightarrow> (True, rest) | None \<Rightarrow> (False, s))"

text \<open>
  The class \<^verbatim>\<open>\s\<close> and the line terminators (which \<^verbatim>\<open>.\<close> does not match), among the
  code units up to \<open>0xFF\<close>.
\<close>

definition is_space :: "char \<Rightarrow> bool" where
  "is_space c \<longleftrightarrow> c \<in> set [CHR 0x09, CHR 0x0A, CHR 0x0B, CHR 0x0C, CHR 0x0D, CHR 0x20, CHR 0xA0]"

definition is_line_terminator :: "char \<Rightarrow> bool" where
  "is_line_terminator c \<longleftrightarrow> c = CHR 0x0A \<or> c = CHR 0x0D"

text \<open>
  \<^verbatim>\<open>/- "([^"]+)"( \(\*\))?\n\s+views: (.+)$/gm\<close> tried at one position. The result is
  the display name, whether the second group matched, and the views line. With the flag
  \<^verbatim>\<open>m\<close> the anchor \<^verbatim>\<open>$\<close> holds at the end of the text and before a line terminator,
  which is where the longest run of \<^verbatim>\<open>.\<close> ends.
\<close>

definition matchDisplay :: "string \<Rightarrow> ((string \<times> bool \<times> string) \<times> string) option" where
  "matchDisplay s =
     do {
       s1 \<leftarrow> lit (''- '' @ [dquote]) s;
       (displayName, s2) \<leftarrow> many1 (\<lambda>c. c \<noteq> dquote) s1;
       s3 \<leftarrow> lit [dquote] s2;
       (marked, s4) \<leftarrow> Some (opt_lit '' (*)'' s3);
       s5 \<leftarrow> lit ''\<newline>'' s4;
       (ws, s6) \<leftarrow> many1 is_space s5;
       s7 \<leftarrow> lit ''views: '' s6;
       (viewsLine, s8) \<leftarrow> many1 (\<lambda>c. \<not> is_line_terminator c) s7;
       Some ((displayName, marked, viewsLine), s8)
     }"

text \<open>
  \<^verbatim>\<open>/"([^"]+)"( \(\*\))?/\<close> tried at one position: the matched text and the text left.
\<close>

definition matchView :: "string \<Rightarrow> (string \<times> string) option" where
  "matchView s =
     do {
       s1 \<leftarrow> lit [dquote] s;
       (viewName, s2) \<leftarrow> many1 (\<lambda>c. c \<noteq> dquote) s1;
       s3 \<leftarrow> lit [dquote] s2;
       (marked, s4) \<leftarrow> Some (opt_lit '' (*)'' s3);
       Some (dquote # viewName @ [dquote] @ (if marked then '' (*)'' else []), s4)
     }"

text \<open>\<^verbatim>\<open>/"([^"]+)"/\<close> tried at one position: the first group.\<close>

definition matchQuoted :: "string \<Rightarrow> string option" where
  "matchQuoted s =
     do {
       s1 \<leftarrow> lit [dquote] s;
       (viewName, s2) \<leftarrow> many1 (\<lambda>c. c \<noteq> dquote) s1;
       s3 \<leftarrow> lit [dquote] s2;
       Some viewName
     }"

lemma lit_shorter: "lit p s = Some r \<Longrightarrow> length r \<le> length s"
  by (auto simp: lit_def split: if_splits)

lemma many1_shorter: "many1 cls s = Some (run, r) \<Longrightarrow> length r < length s"
proof -
  assume a: "many1 cls s = Some (run, r)"
  then have "takeWhile cls s \<noteq> []" and r: "r = dropWhile cls s"
    by (auto simp: many1_def split: list.splits)
  then have "0 < length (takeWhile cls s)"
    by blast
  moreover have "length (takeWhile cls s) + length (dropWhile cls s) = length s"
    by (metis length_append takeWhile_dropWhile_id)
  ultimately show ?thesis
    unfolding r by linarith
qed

lemma opt_lit_shorter: "opt_lit p s = (b, r) \<Longrightarrow> length r \<le> length s"
  by (auto simp: opt_lit_def lit_def split: if_splits)

lemma matchView_shorter: "matchView s = Some (m, r) \<Longrightarrow> length r < length s"
  by (auto simp: matchView_def split: Option.bind_splits prod.splits
      dest!: lit_shorter many1_shorter opt_lit_shorter)

lemma matchDisplay_shorter: "matchDisplay s = Some (m, r) \<Longrightarrow> length r < length s"
  by (auto simp: matchDisplay_def split: Option.bind_splits prod.splits
      dest!: lit_shorter many1_shorter opt_lit_shorter)

text \<open>
  \<^verbatim>\<open>viewsLine.match(/.../g) || []\<close>: the matched texts, from left to right; a position
  with no match is skipped, a match moves the position to its end.
\<close>

function scanViews :: "string \<Rightarrow> string list" where
  "scanViews [] = []"
| "scanViews (c # cs) =
     (case matchView (c # cs) of
        Some (viewMatch, rest) \<Rightarrow> viewMatch # scanViews rest
      | None \<Rightarrow> scanViews cs)"
  by pat_completeness auto
termination
  by (relation "measure length") (auto dest: matchView_shorter)

text \<open>\<^verbatim>\<open>viewMatch.match(/"([^"]+)"/)\<close>: the first position with a match decides.\<close>

fun firstQuoted :: "string \<Rightarrow> string option" where
  "firstQuoted [] = None"
| "firstQuoted (c # cs) =
     (case matchQuoted (c # cs) of Some viewName \<Rightarrow> Some viewName | None \<Rightarrow> firstQuoted cs)"

text \<open>The body of the \<^verbatim>\<open>map\<close> over the matched view texts (lines 1402 to 1406).\<close>

definition parseView :: "string \<Rightarrow> color_view" where
  "parseView viewMatch =
     \<lparr>view_name = (case firstQuoted viewMatch of Some viewName \<Rightarrow> viewName | None \<Rightarrow> []),
      view_isDefault = sublist ''(*)'' viewMatch\<rparr>"

text \<open>
  The \<^verbatim>\<open>while\<close> loop over \<^verbatim>\<open>displayRegex.exec(displaySection)\<close>: each call looks for
  the first match at or after the end of the previous one.
\<close>

function scanDisplays :: "string \<Rightarrow> color_display list" where
  "scanDisplays [] = []"
| "scanDisplays (c # cs) =
     (case matchDisplay (c # cs) of
        Some ((displayName, marked, viewsLine), rest) \<Rightarrow>
          \<lparr>name = displayName, isDefault = marked,
           views = map parseView (scanViews viewsLine)\<rparr> # scanDisplays rest
      | None \<Rightarrow> scanDisplays cs)"
  by pat_completeness auto
termination
  by (relation "measure length") (auto dest: matchDisplay_shorter)

text \<open>
  \<^verbatim>\<open>output.split('Known displays:')[1]?.split('Named transforms:')[0]\<close>
\<close>

definition displaySection :: "string \<Rightarrow> string option" where
  "displaySection stdout =
     (case at_index (splitOn ''Known displays:'' stdout) 1 of
        None \<Rightarrow> None
      | Some piece \<Rightarrow> at_index (splitOn ''Named transforms:'' piece) 0)"

text \<open>An undefined or empty section is falsy and gives the empty catalogue.\<close>

definition parseColorConfigInfo :: "string \<Rightarrow> color_display list" where
  "parseColorConfigInfo stdout =
     (case displaySection stdout of
        None \<Rightarrow> []
      | Some section \<Rightarrow> if section = [] then [] else scanDisplays section)"

text \<open>
  \<open>getColorConfigInfo\<close>: the parsed output of the query, or the one-entry catalogue
  when the query fails.
\<close>

definition fallbackCatalog :: "color_display list" where
  "fallbackCatalog =
     [\<lparr>name = ''sRGB - Display'', isDefault = True,
       views = [\<lparr>view_name = ''ACES 1.0 - SDR Video'', view_isDefault = True\<rparr>]\<rparr>]"

definition getColorConfigInfo :: "(string \<Rightarrow> error + string) \<Rightarrow> color_display list" where
  "getColorConfigInfo runCommand =
     (case runCommand ''oiiotool --colorconfiginfo'' of
        Inr stdout \<Rightarrow> parseColorConfigInfo stdout
      | Inl err \<Rightarrow> fallbackCatalog)"

lemma splitOn_no_occurrence: "\<not> sublist sep s \<Longrightarrow> splitOn sep s = [s]"
proof (induction s)
  case Nil
  then show ?case by simp
next
  case (Cons c cs)
  from Cons.prems have "\<not> prefix sep (c # cs)"
    using prefix_imp_sublist by blast
  moreover from Cons.prems have "\<not> sublist sep cs"
    by (auto simp: sublist_Cons_right)
  ultimately show ?case
    using Cons.IH by simp
qed

lemma displaySection_absent:
  "\<not> sublist ''Known displays:'' stdout \<Longrightarrow> displaySection stdout = None"
  by (simp add: displaySection_def splitOn_no_occurrence at_index_def)

lemma parse_without_displays:
  "\<not> sublist ''Known displays:'' stdout \<Longrightarrow> parseColorConfigInfo stdout = []"
  by (simp add: parseColorConfigInfo_def displaySection_absent)

text \<open>A query that runs and reports no displays, and a query that cannot be run.\<close>

definition reports_no_displays :: "string \<Rightarrow> error + string" where
  "reports_no_displays cmd = Inr ''OpenColorIO not enabled\<newline>''"

definition cannot_run :: "string \<Rightarrow> error + string" where
  "cannot_run cmd = Inl (ExecError ''oiiotool: command not found'')"

text \<open>
  Claim C4 says that \<open>getColorConfigInfo\<close> returns a catalogue with at least one display
  that has at least one view whatever the query does. It does not when the query runs
  and its output has no \<^verbatim>\<open>Known displays:\<close> block: the catalogue is then empty.
\<close>

theorem catalog_can_be_empty_counterexample:
  "getColorConfigInfo reports_no_displays = []"
proof -
  have "\<not> sublist ''Known displays:'' ''OpenColorIO not enabled\<newline>''"
    by (simp add: sublist_Cons_right)
  then show ?thesis
    by (simp add: getColorConfigInfo_def reports_no_displays_def parse_without_displays)
qed

text \<open>
  Claim C4, amended. When the query cannot be run, \<open>getColorConfigInfo\<close> returns the
  one-entry catalogue: the display \<^verbatim>\<open>sRGB - Display\<close> with the single view
  \<^verbatim>\<open>ACES 1.0 - SDR Video\<close>, both marked default. When the query runs, it returns what
  \<open>parseColorConfigInfo\<close> makes of the output, and that is the empty catalogue when
  the output has no \<^verbatim>\<open>Known displays:\<close> block. With an empty catalogue the first
  preview falls back to those same two names.
\<close>

theorem catalog_fallback_on_failed_query:
  "(\<forall>err. runCommand ''oiiotool --colorconfiginfo'' = Inl err
       \<longrightarrow> getColorConfigInfo runCommand
            = [\<lparr>name = ''sRGB - Display'', isDefault = True,
                views = [\<lparr>view_name = ''ACES 1.0 - SDR Video'', view_isDefault = True\<rparr>]\<rparr>])
   \<and> (\<forall>stdout. runCommand ''oiiotool --colorconfiginfo'' = Inr stdout
       \<longrightarrow> getColorConfigInfo runCommand = parseColorConfigInfo stdout)
   \<and> (\<forall>stdout. \<not> sublist ''Known displays:'' stdout \<longrightarrow> parseColorConfigInfo stdout = [])
   \<and> initialPreviewCmd fmt [] inputPath outputPath
       = adjustExposureCmd fmt inputPath outputPath 0 ''sRGB - Display'' ''ACES 1.0 - SDR Video''"
  by (simp add: getColorConfigInfo_def fallbackCatalog_def parse_without_displays
        initialPreviewCmd_def find_or_first_def string_or_def)

theorem catalog_fallback_on_failed_query_witness:
  "cannot_run ''oiiotool --colorconfiginfo'' = Inl (ExecError ''oiiotool: command not found'')
   \<and> getColorConfigInfo cannot_run
       = [\<lparr>name = ''sRGB - Display'', isDefault = True,
           views = [\<lparr>view_name = ''ACES 1.0 - SDR Video'', view_isDefault = True\<rparr>]\<rparr>]
   \<and> reports_no_displays ''oiiotool --colorconfiginfo'' = Inr ''OpenColorIO not enabled\<newline>''
   \<and> \<not> sublist ''Known displays:'' ''OpenColorIO not enabled\<newline>''
   \<and> getColorConfigInfo reports_no_displays = parseColorConfigInfo ''OpenColorIO not enabled\<newline>''
   \<and> parseColorConfigInfo ''OpenColorIO not enabled\<newline>'' = []"
proof -
  have f: "cannot_run ''oiiotool --colorconfiginfo''
             = Inl (ExecError ''oiiotool: command not found'')"
    by (simp add: cannot_run_def)
  have r: "reports_no_displays ''oiiotool --colorconfiginfo''
             = Inr ''OpenColorIO not enabled\<newline>''"
    by (simp add: reports_no_displays_def)
  have n: "\<not> sublist ''Known displays:'' ''OpenColorIO not enabled\<newline>''"
    by (simp add: sublist_Cons_right)
  note a = catalog_fallback_on_failed_query [of cannot_run fmt_unused "[]" "[]"]
  note b = catalog_fallback_on_failed_query [of reports_no_displays fmt_unused "[]" "[]"]
  have c1: "getColorConfigInfo cannot_run
       = [\<lparr>name = ''sRGB - Display'', isDefault = True,
           views = [\<lparr>view_name = ''ACES 1.0 - SDR Video'', view_isDefault = True\<rparr>]\<rparr>]"
    using a [THEN conjunct1] f by blast
  have c2: "getColorConfigInfo reports_no_displays
       = parseColorConfigInfo ''OpenColorIO not enabled\<newline>''"
    using b [THEN conjunct2, THEN conjunct1] r by blast
  have c3: "parseColorConfigInfo ''OpenColorIO not enabled\<newline>'' = []"
    using b [THEN conjunct2, THEN conjunct2, THEN conjunct1] n by blast
  show ?thesis
    using f c1 r n c2 c3 by blast
qed

subsection \<open>The text layout the parser reads\<close>

text \<open>
  A well-formed display block, as the comment in \<open>parseColorConfigInfo\<close> pictures it:
  after \<^verbatim>\<open>Known displays:\<close> and the rest of that line, one entry for each display,
  \<^verbatim>\<open>- "<name>"\<close> with \<^verbatim>\<open> (*)\<close> behind it when it is the default, a line break, white
  space, \<^verbatim>\<open>views: \<close> and on the same line the views, each \<^verbatim>\<open>"<name>"\<close> with
  \<^verbatim>\<open> (*)\<close> behind it when it is the default, separated by \<^verbatim>\<open>, \<close>; then
  \<^verbatim>\<open>Named transforms:\<close>. An entry records its name, its marker, the white space before
  \<^verbatim>\<open>views: \<close>, its views (name and marker) and the text from the end of the views line
  up to the next entry.
\<close>

record display_entry =
  entry_name :: string
  entry_marked :: bool
  entry_indent :: string
  entry_views :: "(string \<times> bool) list"
  entry_tail :: string

definition renderView :: "string \<times> bool \<Rightarrow> string" where
  "renderView v = quoted (fst v) @ (if snd v then '' (*)'' else [])"

fun renderViews :: "(string \<times> bool) list \<Rightarrow> string" where
  "renderViews [] = []"
| "renderViews [v] = renderView v"
| "renderViews (v # w # vs) = renderView v @ '', '' @ renderViews (w # vs)"

definition renderEntry :: "display_entry \<Rightarrow> string" where
  "renderEntry d =
     ''- '' @ quoted (entry_name d) @ (if entry_marked d then '' (*)'' else [])
       @ ''\<newline>'' @ entry_indent d @ ''views: '' @ renderViews (entry_views d)
       @ entry_tail d"

definition renderSection :: "string \<Rightarrow> display_entry list \<Rightarrow> string" where
  "renderSection lead ds = lead @ concat (map renderEntry ds)"

definition renderConfig :: "string \<Rightarrow> string \<Rightarrow> display_entry list \<Rightarrow> string \<Rightarrow> string" where
  "renderConfig before lead ds after =
     before @ ''Known displays:'' @ renderSection lead ds @ ''Named transforms:'' @ after"

text \<open>
  Names are not empty and hold no double quote; a view name holds no line break either.
  The white space before \<^verbatim>\<open>views: \<close> is not empty. The text after a views line starts
  with the line break that ends it, and neither it nor the text before the first entry
  holds a hyphen. An entry has at least one view.
\<close>

definition wf_view :: "string \<times> bool \<Rightarrow> bool" where
  "wf_view v \<longleftrightarrow>
     fst v \<noteq> [] \<and> dquote \<notin> set (fst v) \<and> \<not> list_ex is_line_terminator (fst v)"

definition wf_entry :: "display_entry \<Rightarrow> bool" where
  "wf_entry d \<longleftrightarrow>
     entry_name d \<noteq> [] \<and> dquote \<notin> set (entry_name d)
     \<and> entry_indent d \<noteq> [] \<and> list_all is_space (entry_indent d)
     \<and> entry_views d \<noteq> [] \<and> list_all wf_view (entry_views d)
     \<and> (case entry_tail d of [] \<Rightarrow> False | c # cs \<Rightarrow> is_line_terminator c)
     \<and> CHR ''-'' \<notin> set (entry_tail d)"

text \<open>A view carries the marker when \<^verbatim>\<open>(*)\<close> stands in its text.\<close>

definition view_carries_marker :: "string \<times> bool \<Rightarrow> bool" where
  "view_carries_marker v \<longleftrightarrow> sublist ''(*)'' (renderView v)"

text \<open>What the parser is to make of an entry.\<close>

definition entry_display :: "display_entry \<Rightarrow> color_display" where
  "entry_display d =
     \<lparr>name = entry_name d, isDefault = entry_marked d,
      views = map (\<lambda>v. \<lparr>view_name = fst v, view_isDefault = view_carries_marker v\<rparr>)
                (entry_views d)\<rparr>"

subsection \<open>Splitting at the two headings\<close>

lemma no_early_match:
  assumes "\<not> sublist (k # ks) a" and k: "k \<notin> set ks" and "suffix a' a" and "a' \<noteq> []"
  shows "\<not> prefix (k # ks) (a' @ (k # ks) @ b)"
proof
  assume p: "prefix (k # ks) (a' @ (k # ks) @ b)"
  have na: "\<not> prefix (k # ks) a'"
  proof
    assume "prefix (k # ks) a'"
    then have "sublist (k # ks) a'"
      by (rule prefix_imp_sublist)
    moreover have "sublist a' a"
      using assms(3) by (rule suffix_imp_sublist)
    ultimately have "sublist (k # ks) a"
      by (rule sublist_order.order_trans)
    with assms(1) show False by simp
  qed
  from p have "prefix (k # ks) a' \<or> (\<exists>us. k # ks = a' @ us \<and> prefix us ((k # ks) @ b))"
    by (simp only: prefix_append)
  with na obtain us where us: "k # ks = a' @ us" and pu: "prefix us ((k # ks) @ b)"
    by blast
  obtain y ys where a': "a' = y # ys"
    using assms(4) by (cases a') auto
  have "us \<noteq> []"
  proof
    assume "us = []"
    with us have "k # ks = a'" by simp
    with na show False by simp
  qed
  then obtain u us' where u: "us = u # us'"
    by (cases us) auto
  from pu u have "u = k"
    by simp
  from us a' u \<open>u = k\<close> have "ks = ys @ k # us'"
    by simp
  then have "k \<in> set ks"
    by simp
  with k show False by simp
qed

lemma splitOn_first:
  assumes "\<not> sublist (k # ks) a" and k: "k \<notin> set ks"
  shows "splitOn (k # ks) (a @ (k # ks) @ b) = a # splitOn (k # ks) b"
  using assms(1)
proof (induction a)
  case Nil
  show ?case by simp
next
  case (Cons x xs)
  have "\<not> prefix (k # ks) ((x # xs) @ (k # ks) @ b)"
    using Cons.prems k by (rule no_early_match) simp_all
  then have np: "\<not> prefix (k # ks) (x # (xs @ (k # ks) @ b))"
    by simp
  have "\<not> sublist (k # ks) xs"
    using Cons.prems by (auto simp: sublist_Cons_right)
  then have ih: "splitOn (k # ks) (xs @ (k # ks) @ b) = xs # splitOn (k # ks) b"
    by (rule Cons.IH)
  have "splitOn (k # ks) ((x # xs) @ (k # ks) @ b)
      = (case splitOn (k # ks) (xs @ (k # ks) @ b) of [] \<Rightarrow> [[x]] | p # ps \<Rightarrow> (x # p) # ps)"
    using np by (simp only: append_Cons splitOn.simps if_False simp_thms)
  then show ?case
    unfolding ih by simp
qed

lemma displaySection_renderConfig:
  assumes "\<not> sublist ''Known displays:'' before"
    and "\<not> sublist ''Known displays:'' (section @ ''Named transforms:'' @ after)"
    and "\<not> sublist ''Named transforms:'' section"
  shows "displaySection (before @ ''Known displays:'' @ section @ ''Named transforms:'' @ after)
           = Some section"
proof -
  have kd': "CHR ''K'' \<notin> set ''nown displays:''"
    and nt': "CHR ''N'' \<notin> set ''amed transforms:''"
    by simp_all
  have "splitOn ''Known displays:''
          (before @ ''Known displays:'' @ section @ ''Named transforms:'' @ after)
        = before # splitOn ''Known displays:'' (section @ ''Named transforms:'' @ after)"
    using assms(1) kd' by (rule splitOn_first)
  also have "\<dots> = [before, section @ ''Named transforms:'' @ after]"
    by (simp only: splitOn_no_occurrence [OF assms(2)])
  finally have one: "at_index (splitOn ''Known displays:''
          (before @ ''Known displays:'' @ section @ ''Named transforms:'' @ after)) 1
        = Some (section @ ''Named transforms:'' @ after)"
    by (simp add: at_index_def)
  have "splitOn ''Named transforms:'' (section @ ''Named transforms:'' @ after)
        = section # splitOn ''Named transforms:'' after"
    using assms(3) nt' by (rule splitOn_first)
  then have two: "at_index (splitOn ''Named transforms:''
          (section @ ''Named transforms:'' @ after)) 0 = Some section"
    by (simp add: at_index_def)
  show ?thesis
    unfolding displaySection_def one by (simp only: option.case two)
qed

subsection \<open>One match\<close>

lemma lit_append [simp]: "lit p (p @ r) = Some r"
  by (simp add: lit_def)

lemma lit_mismatch: "c \<noteq> x \<Longrightarrow> lit (c # p) (x # r) = None"
  by (simp add: lit_def)

lemma many1_run:
  assumes "run \<noteq> []" and "\<forall>c \<in> set run. cls c" and "r = [] \<or> \<not> cls (hd r)"
  shows "many1 cls (run @ r) = Some (run, r)"
proof -
  have stop: "takeWhile cls r = []" "dropWhile cls r = r"
    using assms(3) by (cases r; simp)+
  have t: "takeWhile cls (run @ r) = run"
    using assms(2) stop(1) by (simp add: takeWhile_append2)
  have d: "dropWhile cls (run @ r) = r"
    using assms(2) stop(2) by (simp add: dropWhile_append2)
  obtain c cs where "run = c # cs"
    using assms(1) by (cases run) auto
  then show ?thesis
    using t d by (simp add: many1_def)
qed

lemma renderView_shape: "renderView v = dquote # fst v @ dquote # (if snd v then '' (*)'' else [])"
  by (simp add: renderView_def quoted_def)

lemma renderView_no_terminator:
  assumes "wf_view v" and "c \<in> set (renderView v)"
  shows "\<not> is_line_terminator c"
proof -
  have "\<forall>x \<in> set (fst v). \<not> is_line_terminator x"
    using assms(1) by (simp add: wf_view_def list_ex_iff)
  moreover have "c \<in> set (fst v) \<or> c \<in> {dquote, CHR '' '', CHR ''('', CHR ''*'', CHR '')''}"
    using assms(2) by (auto simp: renderView_shape split: if_splits)
  ultimately show ?thesis
    by (auto simp: is_line_terminator_def dquote_def)
qed

lemma renderViews_no_terminator:
  "list_all wf_view vs \<Longrightarrow> c \<in> set (renderViews vs) \<Longrightarrow> \<not> is_line_terminator c"
proof (induction vs rule: renderViews.induct)
  case 1
  then show ?case by simp
next
  case (2 v)
  then show ?case using renderView_no_terminator [of v c] by simp
next
  case (3 v w vs)
  from "3.prems"(2) have "c \<in> set (renderView v) \<or> c \<in> set '', '' \<or> c \<in> set (renderViews (w # vs))"
    by auto
  then show ?case
  proof (elim disjE)
    assume "c \<in> set (renderView v)"
    with "3.prems"(1) show ?thesis using renderView_no_terminator [of v c] by simp
  next
    assume "c \<in> set '', ''"
    then show ?thesis by (auto simp: is_line_terminator_def)
  next
    assume "c \<in> set (renderViews (w # vs))"
    with "3.prems"(1) "3.IH" show ?thesis by simp
  qed
qed

lemma renderViews_nonempty: "vs \<noteq> [] \<Longrightarrow> renderViews vs \<noteq> []"
  by (induction vs rule: renderViews.induct) (simp_all add: renderView_shape)

lemma matchDisplay_entry:
  assumes "wf_entry d"
  shows "matchDisplay (renderEntry d @ rest)
           = Some ((entry_name d, entry_marked d, renderViews (entry_views d)),
                   entry_tail d @ rest)"
proof -
  let ?V = "renderViews (entry_views d)"
  let ?s7 = "?V @ entry_tail d @ rest"
  let ?s5 = "entry_indent d @ ''views: '' @ ?s7"
  let ?s4 = "''\<newline>'' @ ?s5"
  let ?s3 = "(if entry_marked d then '' (*)'' else []) @ ?s4"
  let ?s1 = "entry_name d @ [dquote] @ ?s3"
  have whole: "renderEntry d @ rest = (''- '' @ [dquote]) @ ?s1"
    by (simp add: renderEntry_def quoted_def)
  have name: "entry_name d \<noteq> []" "\<forall>c \<in> set (entry_name d). c \<noteq> dquote"
    and indent: "entry_indent d \<noteq> []" "\<forall>c \<in> set (entry_indent d). is_space c"
    and views: "entry_views d \<noteq> []" "list_all wf_view (entry_views d)"
    and tail: "entry_tail d \<noteq> []" "is_line_terminator (hd (entry_tail d))"
    using assms by (auto simp: wf_entry_def list_all_iff split: list.splits)
  have m1: "many1 (\<lambda>c. c \<noteq> dquote) ?s1 = Some (entry_name d, [dquote] @ ?s3)"
    using name by (intro many1_run) simp_all
  have o: "opt_lit '' (*)'' ?s3 = (entry_marked d, ?s4)"
    by (simp add: opt_lit_def lit_def)
  have "\<not> is_space CHR ''v''"
    by (simp add: is_space_def)
  then have m2: "many1 is_space ?s5 = Some (entry_indent d, ''views: '' @ ?s7)"
    using indent by (intro many1_run) simp_all
  have "\<forall>c \<in> set ?V. \<not> is_line_terminator c"
    using views(2) renderViews_no_terminator by blast
  moreover have "?V \<noteq> []"
    using views(1) by (rule renderViews_nonempty)
  moreover have "\<not> \<not> is_line_terminator (hd (entry_tail d @ rest))"
    using tail by simp
  ultimately have m3: "many1 (\<lambda>c. \<not> is_line_terminator c) ?s7 = Some (?V, entry_tail d @ rest)"
    by (intro many1_run) simp_all
  show ?thesis
    unfolding whole matchDisplay_def
    by (simp only: lit_append m1 o m2 m3 Option.bind.bind_lunit prod.case)
qed

lemma matchDisplay_other: "c \<noteq> CHR ''-'' \<Longrightarrow> matchDisplay (c # s) = None"
  by (simp add: matchDisplay_def lit_def)

lemma scanDisplays_skip: "CHR ''-'' \<notin> set junk \<Longrightarrow> scanDisplays (junk @ s) = scanDisplays s"
proof (induction junk)
  case Nil
  show ?case by simp
next
  case (Cons c junk)
  then have "c \<noteq> CHR ''-''" and "CHR ''-'' \<notin> set junk"
    by auto
  then show ?case
    using Cons.IH by (simp add: matchDisplay_other)
qed

lemma matchView_view:
  assumes "wf_view v" and "\<not> prefix '' (*)'' r"
  shows "matchView (renderView v @ r) = Some (renderView v, r)"
proof -
  let ?mark = "if snd v then '' (*)'' else []"
  let ?s3 = "?mark @ r"
  let ?s1 = "fst v @ [dquote] @ ?s3"
  have whole: "renderView v @ r = [dquote] @ ?s1"
    by (simp add: renderView_shape)
  have "fst v \<noteq> []" "\<forall>c \<in> set (fst v). c \<noteq> dquote"
    using assms(1) by (auto simp: wf_view_def)
  then have m1: "many1 (\<lambda>c. c \<noteq> dquote) ?s1 = Some (fst v, [dquote] @ ?s3)"
    by (intro many1_run) simp_all
  have o: "opt_lit '' (*)'' ?s3 = (snd v, r)"
    using assms(2) by (simp add: opt_lit_def lit_def)
  have "matchView ([dquote] @ ?s1) = Some (dquote # fst v @ [dquote] @ ?mark, r)"
    unfolding matchView_def
    by (simp only: lit_append m1 o Option.bind.bind_lunit prod.case)
  then show ?thesis
    unfolding whole by (simp add: renderView_shape)
qed

lemma matchView_other: "c \<noteq> dquote \<Longrightarrow> matchView (c # s) = None"
  by (simp add: matchView_def lit_def)

lemma scanViews_view:
  assumes "wf_view v" and "\<not> prefix '' (*)'' r"
  shows "scanViews (renderView v @ r) = renderView v # scanViews r"
proof -
  have "renderView v @ r = dquote # (fst v @ dquote # (if snd v then '' (*)'' else []) @ r)"
    by (simp add: renderView_shape)
  then obtain cs where c: "renderView v @ r = dquote # cs"
    by blast
  have "matchView (dquote # cs) = Some (renderView v, r)"
    using matchView_view [OF assms] by (simp only: c)
  then have "scanViews (dquote # cs) = renderView v # scanViews r"
    by simp
  then show ?thesis
    by (simp only: c)
qed

lemma scanViews_separator: "scanViews ('', '' @ s) = scanViews s"
  by (simp add: matchView_other dquote_def)

lemma scanViews_renderViews: "list_all wf_view vs \<Longrightarrow> scanViews (renderViews vs) = map renderView vs"
proof (induction vs rule: renderViews.induct)
  case 1
  show ?case by simp
next
  case (2 v)
  then have "scanViews (renderView v @ []) = renderView v # scanViews []"
    by (intro scanViews_view) simp_all
  then show ?case by simp
next
  case (3 v w vs)
  have "scanViews (renderView v @ ('', '' @ renderViews (w # vs)))
      = renderView v # scanViews ('', '' @ renderViews (w # vs))"
    using "3.prems" by (intro scanViews_view) simp_all
  also have "\<dots> = renderView v # scanViews (renderViews (w # vs))"
    by (simp only: scanViews_separator)
  also have "\<dots> = renderView v # map renderView (w # vs)"
    using "3.prems" "3.IH" by simp
  finally show ?case by simp
qed

lemma firstQuoted_view: "wf_view v \<Longrightarrow> firstQuoted (renderView v) = Some (fst v)"
proof -
  assume wf: "wf_view v"
  let ?mark = "if snd v then '' (*)'' else []"
  have "fst v \<noteq> []" "\<forall>c \<in> set (fst v). c \<noteq> dquote"
    using wf by (auto simp: wf_view_def)
  then have m1: "many1 (\<lambda>c. c \<noteq> dquote) (fst v @ [dquote] @ ?mark) = Some (fst v, [dquote] @ ?mark)"
    by (intro many1_run) simp_all
  have "matchQuoted ([dquote] @ fst v @ [dquote] @ ?mark) = Some (fst v)"
    unfolding matchQuoted_def
    by (simp only: lit_append m1 Option.bind.bind_lunit prod.case)
  then have "matchQuoted (dquote # fst v @ dquote # ?mark) = Some (fst v)"
    by simp
  then show ?thesis
    by (simp add: renderView_shape)
qed

lemma parseView_view:
  "wf_view v \<Longrightarrow>
   parseView (renderView v) = \<lparr>view_name = fst v, view_isDefault = view_carries_marker v\<rparr>"
  by (simp add: parseView_def firstQuoted_view view_carries_marker_def)

lemma parse_views_line:
  assumes "list_all wf_view vs"
  shows "map parseView (scanViews (renderViews vs))
           = map (\<lambda>v. \<lparr>view_name = fst v, view_isDefault = view_carries_marker v\<rparr>) vs"
proof -
  have "map parseView (map renderView vs)
      = map (\<lambda>v. \<lparr>view_name = fst v, view_isDefault = view_carries_marker v\<rparr>) vs"
    using assms by (induction vs) (simp_all add: parseView_view)
  then show ?thesis
    using assms by (simp only: scanViews_renderViews)
qed

lemma scanDisplays_entry:
  assumes "wf_entry d"
  shows "scanDisplays (renderEntry d @ rest) = entry_display d # scanDisplays rest"
proof -
  have "renderEntry d @ rest = CHR ''-'' # tl (renderEntry d @ rest)"
    by (simp add: renderEntry_def)
  then obtain cs where c: "renderEntry d @ rest = CHR ''-'' # cs"
    by blast
  have "matchDisplay (CHR ''-'' # cs)
      = Some ((entry_name d, entry_marked d, renderViews (entry_views d)), entry_tail d @ rest)"
    using matchDisplay_entry [OF assms, of rest] by (simp only: c)
  then have "scanDisplays (CHR ''-'' # cs)
      = \<lparr>name = entry_name d, isDefault = entry_marked d,
         views = map parseView (scanViews (renderViews (entry_views d)))\<rparr>
        # scanDisplays (entry_tail d @ rest)"
    by simp
  moreover have "scanDisplays (entry_tail d @ rest) = scanDisplays rest"
    using assms by (intro scanDisplays_skip) (simp add: wf_entry_def)
  moreover have "list_all wf_view (entry_views d)"
    using assms by (simp add: wf_entry_def)
  ultimately show ?thesis
    by (simp only: c parse_views_line entry_display_def)
qed

lemma scanDisplays_entries:
  "list_all wf_entry ds \<Longrightarrow> scanDisplays (concat (map renderEntry ds)) = map entry_display ds"
  by (induction ds) (simp_all add: scanDisplays_entry)

lemma scanDisplays_section:
  assumes "CHR ''-'' \<notin> set lead" and "list_all wf_entry ds"
  shows "scanDisplays (renderSection lead ds) = map entry_display ds"
  using assms by (simp add: renderSection_def scanDisplays_skip scanDisplays_entries)

lemma parse_renderConfig:
  assumes "CHR ''-'' \<notin> set lead" and "list_all wf_entry ds"
    and "\<not> sublist ''Known displays:'' before"
    and "\<not> sublist ''Known displays:'' (renderSection lead ds @ ''Named transforms:'' @ after)"
    and "\<not> sublist ''Named transforms:'' (renderSection lead ds)"
  shows "parseColorConfigInfo (renderConfig before lead ds after) = map entry_display ds"
proof -
  have "displaySection (renderConfig before lead ds after) = Some (renderSection lead ds)"
    unfolding renderConfig_def using assms(3,4,5) by (rule displaySection_renderConfig)
  then have "parseColorConfigInfo (renderConfig before lead ds after)
      = (if renderSection lead ds = [] then [] else scanDisplays (renderSection lead ds))"
    by (simp add: parseColorConfigInfo_def)
  also have "\<dots> = scanDisplays (renderSection lead ds)"
    by simp
  also have "\<dots> = map entry_display ds"
    using assms(1,2) by (rule scanDisplays_section)
  finally show ?thesis .
qed

lemma default_displays:
  "filter isDefault (map entry_display ds) = map entry_display (filter entry_marked ds)"
  by (induction ds) (simp_all add: entry_display_def)

lemma default_views:
  "filter view_isDefault (views (entry_display d))
     = map (\<lambda>v. \<lparr>view_name = fst v, view_isDefault = view_carries_marker v\<rparr>)
         (filter view_carries_marker (entry_views d))"
  by (simp add: entry_display_def filter_map comp_def)

lemma view_carries_marker_iff:
  assumes "\<not> sublist ''(*)'' (fst v)"
  shows "view_carries_marker v \<longleftrightarrow> snd v"
  using assms
  by (simp add: view_carries_marker_def renderView_shape dquote_def
        sublist_Cons_right sublist_split_at)

text \<open>
  Claim C8. Take an output whose first \<^verbatim>\<open>Known displays:\<close> opens a well-formed block
  that ends at \<^verbatim>\<open>Named transforms:\<close> (neither heading occurs inside the block, and
  \<^verbatim>\<open>Known displays:\<close> occurs nowhere else). Then \<open>parseColorConfigInfo\<close> returns
  the displays of the block in order, each with its views in order, a display being
  default exactly when its line has the marker and a view exactly when its text carries
  \<^verbatim>\<open>(*)\<close> (for a name that does not spell \<^verbatim>\<open>(*)\<close> itself: when it has the marker).
  So when exactly one display line has the marker and on each views line exactly one
  view carries it, exactly one display of the result is default and exactly one view
  of it, as of every display, is default.
\<close>

theorem well_formed_block_has_one_default:
  assumes "CHR ''-'' \<notin> set lead" and "list_all wf_entry ds"
    and "\<not> sublist ''Known displays:'' before"
    and "\<not> sublist ''Known displays:'' (renderSection lead ds @ ''Named transforms:'' @ after)"
    and "\<not> sublist ''Named transforms:'' (renderSection lead ds)"
    and "length (filter entry_marked ds) = 1"
    and "list_all (\<lambda>d. length (filter view_carries_marker (entry_views d)) = 1) ds"
  shows "parseColorConfigInfo (renderConfig before lead ds after) = map entry_display ds
    \<and> length (filter isDefault (parseColorConfigInfo (renderConfig before lead ds after))) = 1
    \<and> list_all (\<lambda>r. length (filter view_isDefault (views r)) = 1)
         (parseColorConfigInfo (renderConfig before lead ds after))
    \<and> list_all (\<lambda>r. isDefault r \<longrightarrow> length (filter view_isDefault (views r)) = 1)
         (parseColorConfigInfo (renderConfig before lead ds after))
    \<and> list_all (\<lambda>d. list_all (\<lambda>v. \<not> sublist ''(*)'' (fst v)
                           \<longrightarrow> (view_carries_marker v \<longleftrightarrow> snd v)) (entry_views d)) ds"
proof -
  have p: "parseColorConfigInfo (renderConfig before lead ds after) = map entry_display ds"
    using assms(1-5) by (rule parse_renderConfig)
  have d: "length (filter isDefault (map entry_display ds)) = 1"
    using assms(6) by (simp add: default_displays)
  have v: "list_all (\<lambda>r. length (filter view_isDefault (views r)) = 1) (map entry_display ds)"
    using assms(7) by (simp add: list_all_iff default_views)
  then have v': "list_all (\<lambda>r. isDefault r \<longrightarrow> length (filter view_isDefault (views r)) = 1)
      (map entry_display ds)"
    by (simp add: list_all_iff)
  have m: "list_all (\<lambda>d. list_all (\<lambda>v. \<not> sublist ''(*)'' (fst v)
                           \<longrightarrow> (view_carries_marker v \<longleftrightarrow> snd v)) (entry_views d)) ds"
    by (simp add: list_all_iff view_carries_marker_iff)
  show ?thesis
    unfolding p using d v v' m by simp
qed

text \<open>A block with two displays, the first one default, as \<^verbatim>\<open>oiiotool\<close> prints it.\<close>

definition sample_entries :: "display_entry list" where
  "sample_entries =
     [\<lparr>entry_name = ''sRGB - Display'', entry_marked = True, entry_indent = ''      '',
       entry_views = [(''ACES 1.0 - SDR Video'', True), (''Un-tone-mapped'', False)],
       entry_tail = ''\<newline>    ''\<rparr>,
      \<lparr>entry_name = ''Rec.1886'', entry_marked = False, entry_indent = ''      '',
       entry_views = [(''Raw'', False), (''Video'', True)],
       entry_tail = ''\<newline>''\<rparr>]"

definition sample_lead :: string where
  "sample_lead = '' (* = default)\<newline>    ''"

lemma sample_section:
  "renderSection sample_lead sample_entries
     = '' (* = default)\<newline>    - '' @ quoted ''sRGB - Display'' @ '' (*)\<newline>      views: ''
         @ quoted ''ACES 1.0 - SDR Video'' @ '' (*), '' @ quoted ''Un-tone-mapped''
         @ ''\<newline>    - '' @ quoted ''Rec.1886'' @ ''\<newline>      views: ''
         @ quoted ''Raw'' @ '', '' @ quoted ''Video'' @ '' (*)\<newline>''"
  by (simp add: renderSection_def sample_lead_def sample_entries_def renderEntry_def
        renderView_def)

theorem well_formed_block_has_one_default_witness:
  "CHR ''-'' \<notin> set sample_lead \<and> list_all wf_entry sample_entries
   \<and> \<not> sublist ''Known displays:'' ''OpenColorIO 2.3\<newline>''
   \<and> \<not> sublist ''Known displays:''
         (renderSection sample_lead sample_entries @ ''Named transforms:'' @ ''\<newline>'')
   \<and> \<not> sublist ''Named transforms:'' (renderSection sample_lead sample_entries)
   \<and> length (filter entry_marked sample_entries) = 1
   \<and> list_all (\<lambda>d. length (filter view_carries_marker (entry_views d)) = 1) sample_entries
   \<and> parseColorConfigInfo (renderConfig ''OpenColorIO 2.3\<newline>'' sample_lead sample_entries ''\<newline>'')
       = [\<lparr>name = ''sRGB - Display'', isDefault = True,
           views = [\<lparr>view_name = ''ACES 1.0 - SDR Video'', view_isDefault = True\<rparr>,
                    \<lparr>view_name = ''Un-tone-mapped'', view_isDefault = False\<rparr>]\<rparr>,
          \<lparr>name = ''Rec.1886'', isDefault = False,
           views = [\<lparr>view_name = ''Raw'', view_isDefault = False\<rparr>,
                    \<lparr>view_name = ''Video'', view_isDefault = True\<rparr>]\<rparr>]
   \<and> length (filter isDefault
         (parseColorConfigInfo
            (renderConfig ''OpenColorIO 2.3\<newline>'' sample_lead sample_entries ''\<newline>''))) = 1"
proof -
  have h1: "CHR ''-'' \<notin> set sample_lead"
    by (simp add: sample_lead_def)
  have sp: "is_space CHR '' ''" and nl: "is_line_terminator CHR ''\<newline>''"
    by (simp_all add: is_space_def is_line_terminator_def)
  have h2: "list_all wf_entry sample_entries"
    by (simp add: sample_entries_def wf_entry_def wf_view_def dquote_def sp nl
          is_line_terminator_def)
  have h3: "\<not> sublist ''Known displays:'' ''OpenColorIO 2.3\<newline>''"
    by (simp add: sublist_Cons_right)
  have h4: "\<not> sublist ''Known displays:''
         (renderSection sample_lead sample_entries @ ''Named transforms:'' @ ''\<newline>'')"
    unfolding sample_section by (simp add: quoted_def sublist_Cons_right)
  have h5: "\<not> sublist ''Named transforms:'' (renderSection sample_lead sample_entries)"
    unfolding sample_section by (simp add: quoted_def sublist_Cons_right)
  have c: "view_carries_marker (''ACES 1.0 - SDR Video'', True)"
      "\<not> view_carries_marker (''Un-tone-mapped'', False)"
      "\<not> view_carries_marker (''Raw'', False)"
      "view_carries_marker (''Video'', True)"
    by (simp_all add: view_carries_marker_def renderView_def quoted_def sublist_Cons_right)
  have h6: "length (filter entry_marked sample_entries) = 1"
    by (simp add: sample_entries_def)
  have h7: "list_all (\<lambda>d. length (filter view_carries_marker (entry_views d)) = 1) sample_entries"
    by (simp add: sample_entries_def c)
  note t = well_formed_block_has_one_default [OF h1 h2 h3 h4 h5 h6 h7]
  have "map entry_display sample_entries
       = [\<lparr>name = ''sRGB - Display'', isDefault = True,
           views = [\<lparr>view_name = ''ACES 1.0 - SDR Video'', view_isDefault = True\<rparr>,
                    \<lparr>view_name = ''Un-tone-mapped'', view_isDefault = False\<rparr>]\<rparr>,
          \<lparr>name = ''Rec.1886'', isDefault = False,
           views = [\<lparr>view_name = ''Raw'', view_isDefault = False\<rparr>,
                    \<lparr>view_name = ''Video'', view_isDefault = True\<rparr>]\<rparr>]"
    by (simp add: sample_entries_def entry_display_def c)
  with t [THEN conjunct1] have r: "parseColorConfigInfo
        (renderConfig ''OpenColorIO 2.3\<newline>'' sample_lead sample_entries ''\<newline>'')
       = [\<lparr>name = ''sRGB - Display'', isDefault = True,
           views = [\<lparr>view_name = ''ACES 1.0 - SDR Video'', view_isDefault = True\<rparr>,
                    \<lparr>view_name = ''Un-tone-mapped'', view_isDefault = False\<rparr>]\<rparr>,
          \<lparr>name = ''Rec.1886'', isDefault = False,
           views = [\<lparr>view_name = ''Raw'', view_isDefault = False\<rparr>,
                    \<lparr>view_name = ''Video'', view_isDefault = True\<rparr>]\<rparr>]"
    by simp
  note n = t [THEN conjunct2, THEN conjunct1]
  show ?thesis
    using h1 h2 h3 h4 h5 h6 h7 r n by blast
qed

text \<open>The example in the comment of \<open>parseColorConfigInfo\<close>, with its unquoted views.\<close>

lemma parse_commented_example:
  "parseColorConfigInfo
     (''Known displays:\<newline>- '' @ quoted ''sRGB - Display'' @ '' (*)\<newline>  views: ''
        @ quoted ''ACES 1.0 - SDR Video'' @ '' (*), Un-tone-mapped, Raw\<newline>Named transforms:'')
   = [\<lparr>name = ''sRGB - Display'', isDefault = True,
       views = [\<lparr>view_name = ''ACES 1.0 - SDR Video'', view_isDefault = True\<rparr>]\<rparr>]"
  by code_simp

end
